theory Spec2Isabelle
  imports Main "HOL-Library.Word" "HOL-Library.Monad_Syntax"
begin

unbundle bit_operations_syntax

section \<open>The DNS core of smtpd (dns.c)\<close>

text \<open>
  This theory embeds \<^verbatim>\<open>src/smtpd/dns.c\<close>: the wire decoder (\<^verbatim>\<open>unpack_*\<close>,
  \<^verbatim>\<open>dname_expand\<close>, \<^verbatim>\<open>print_dname\<close>), the address-literal recognizer
  (\<^verbatim>\<open>domainname_is_addr\<close>) and the request handlers (\<^verbatim>\<open>dns_imsg\<close>,
  \<^verbatim>\<open>dns_dispatch_*\<close>, \<^verbatim>\<open>dns_lookup_host\<close>).

  Conventions of the embedding.
  \<^item> A byte buffer is a list of 8-bit words. Every read of the C code goes through
    \<open>rd\<close> or \<open>slice\<close>, which return \<open>None\<close> when an index lies outside the list.
    A function that reads memory returns an \<open>option\<close>; \<open>None\<close> is a read outside
    the buffer (undefined behaviour in C), and nothing is said about what follows it.
  \<^item> The cursor keeps the source's \<^verbatim>\<open>len\<close> beside the list. A theorem about a buffer
    of exactly \<^verbatim>\<open>len\<close> bytes assumes \<open>p_len p = length (p_buf p)\<close>; a longer list
    stands for memory that goes on behind the buffer.
  \<^item> \<^verbatim>\<open>size_t\<close> values are natural numbers. The subtractions of the decoder
    (\<^verbatim>\<open>p->len - p->offset\<close> and \<^verbatim>\<open>p->offset - save_offset\<close>) are written with their
    wrap-around, \<open>sz_sub\<close>; sums of offsets stay far below \<open>2 ^ 64\<close> for every
    buffer that fits in memory and are not reduced.
  \<^item> An out-parameter of a \<^verbatim>\<open>unpack_*\<close> function is an \<open>option\<close> in the result:
    \<open>Some v\<close> when the call returned 0 and stored \<open>v\<close>, \<open>None\<close> when it returned -1
    (no caller reads what such a call may have written). The cursor carries the
    sticky error string. Using a variable that no call has stored is, like a read
    outside the buffer, the outer \<open>None\<close>.
\<close>

subsection \<open>Constants of the system headers\<close>

type_synonym byte = "8 word"

text \<open>Modelled from the spec: \<^verbatim>\<open>MAXDNAME\<close> comes from \<^verbatim>\<open>arpa/nameser.h\<close>, which is
  not part of the sources; the specification fixes it at 255.\<close>
definition MAXDNAME :: nat where "MAXDNAME = 255"

text \<open>Modelled from the spec: \<^verbatim>\<open>HFIXEDSZ\<close>, the size of the fixed DNS header (12 bytes),
  from \<^verbatim>\<open>arpa/nameser.h\<close>.\<close>
definition HFIXEDSZ :: nat where "HFIXEDSZ = 12"

text \<open>Record types and the class IN, with their values from RFC 1035 and RFC 3596
  (\<^verbatim>\<open>arpa/nameser.h\<close>).\<close>
definition T_A :: "16 word" where "T_A = 1"
definition T_NS :: "16 word" where "T_NS = 2"
definition T_CNAME :: "16 word" where "T_CNAME = 5"
definition T_SOA :: "16 word" where "T_SOA = 6"
definition T_PTR :: "16 word" where "T_PTR = 12"
definition T_MX :: "16 word" where "T_MX = 15"
definition T_AAAA :: "16 word" where "T_AAAA = 28"
definition C_IN :: "16 word" where "C_IN = 1"

text \<open>The width of \<^verbatim>\<open>size_t\<close> on the 64-bit platforms smtpd runs on.\<close>
definition SIZE_MAX1 :: nat where "SIZE_MAX1 = 2 ^ 64"

definition sz_sub :: "nat \<Rightarrow> nat \<Rightarrow> nat" where
  "sz_sub a b = (if b \<le> a then a - b else a + SIZE_MAX1 - b)"

subsection \<open>Memory reads\<close>

definition rd :: "byte list \<Rightarrow> nat \<Rightarrow> byte option" where
  "rd data i = (if i < length data then Some (data ! i) else None)"

definition slice :: "byte list \<Rightarrow> nat \<Rightarrow> nat \<Rightarrow> byte list option" where
  "slice data i n = (if i + n \<le> length data then Some (take n (drop i data)) else None)"

subsection \<open>The cursor and the decoded structures\<close>

record unpack =
  p_buf :: "byte list"
  p_len :: nat
  p_offset :: nat
  p_err :: "string option"

text \<open>\<^verbatim>\<open>struct dns_header\<close>. \<^verbatim>\<open>unpack_header\<close> converts every field but \<^verbatim>\<open>id\<close> to host
  byte order, so \<open>h_id\<close> keeps the two bytes as they are on the wire.\<close>
record dns_header =
  h_id :: "byte list"
  h_flags :: "16 word"
  h_qdcount :: "16 word"
  h_ancount :: "16 word"
  h_nscount :: "16 word"
  h_arcount :: "16 word"

record dns_query =
  q_dname :: "byte list"
  q_type :: "16 word"
  q_class :: "16 word"

text \<open>The union \<^verbatim>\<open>rr\<close> of \<^verbatim>\<open>struct dns_rr\<close>. The arm \<open>Rr_other\<close> holds \<^verbatim>\<open>rdlen\<close> and
  \<^verbatim>\<open>rdata\<close>; the pointer \<^verbatim>\<open>rdata = p->buf + p->offset\<close> is kept as the offset into
  the buffer.\<close>
datatype rr_body =
    Rr_cname "byte list"
  | Rr_mx "16 word" "byte list"
  | Rr_ns "byte list"
  | Rr_ptr "byte list"
  | Rr_soa "byte list" "byte list" "32 word" "32 word" "32 word" "32 word" "32 word"
  | Rr_in_a "byte list"
  | Rr_in_aaaa "byte list"
  | Rr_other "16 word" nat

record dns_rr =
  rr_dname :: "byte list"
  rr_type :: "16 word"
  rr_class :: "16 word"
  rr_ttl :: "32 word"
  rr_rr :: rr_body

subsection \<open>Compressed-name expansion\<close>

text \<open>
  The loop of \<^verbatim>\<open>dname_expand\<close>. Its state is the source's: \<open>offset\<close>, \<open>start\<close>,
  \<open>e\<close> (the source's \<^verbatim>\<open>end\<close>), \<open>res\<close>, and the destination, which is the list of
  bytes written to \<^verbatim>\<open>dst\<close> so far (\<open>None\<close> for a null \<^verbatim>\<open>dst\<close>) with the capacity
  \<open>mx\<close> that is left (the source's \<^verbatim>\<open>max\<close>). The result is the returned value, the
  value stored through \<^verbatim>\<open>newoffset\<close> if any, and the bytes written. The mask
  \<^verbatim>\<open>n & ~0xc0\<close> of a value below 256 is \<open>n AND 63\<close>.
\<close>

function dname_expand_loop ::
  "byte list \<Rightarrow> nat \<Rightarrow> nat \<Rightarrow> nat \<Rightarrow> nat \<Rightarrow> nat \<Rightarrow> byte list option \<Rightarrow> nat
     \<Rightarrow> (int \<times> nat option \<times> byte list option) option" where
  "dname_expand_loop data ln off start e res dst mx =
     (case rd data off of
        None \<Rightarrow> None
      | Some b \<Rightarrow>
          let n = unat b in
          if n = 0 then
            Some (int res + 1,
                  Some (if e < off + 1 then off + 1 else e),
                  (if dst \<noteq> None \<and> mx \<noteq> 0 then Some (the dst @ [0]) else dst))
          else if n AND 192 = 192 then
            (if off + 2 > ln then Some (- 1, None, dst)
             else case rd data (off + 1) of
                 None \<Rightarrow> None
               | Some b1 \<Rightarrow>
                   let ptr = 256 * (n AND 63) + unat b1 in
                   if ptr \<ge> start then Some (- 1, None, dst)
                   else dname_expand_loop data ln ptr ptr
                          (if e < off + 2 then off + 2 else e) res dst mx)
          else if off + n + 1 > ln then Some (- 1, None, dst)
          else if dst \<noteq> None \<and> mx \<noteq> 0 then
            (let count = (if mx < n + 1 then mx else n + 1) in
             case slice data off count of
               None \<Rightarrow> None
             | Some bs \<Rightarrow>
                 dname_expand_loop data ln (off + n + 1) start
                   (if e < off + n + 1 then off + n + 1 else e) (res + n + 1)
                   (Some (the dst @ bs)) (mx - count))
          else dname_expand_loop data ln (off + n + 1) start
                 (if e < off + n + 1 then off + n + 1 else e) (res + n + 1) dst mx)"
  by pat_completeness auto
termination
  by (relation "measures [\<lambda>(data, ln, off, start, e, res, dst, mx). start,
                          \<lambda>(data, ln, off, start, e, res, dst, mx). ln - off]") auto

declare dname_expand_loop.simps [simp del]

definition dname_expand ::
  "byte list \<Rightarrow> nat \<Rightarrow> nat \<Rightarrow> byte list option \<Rightarrow> nat
     \<Rightarrow> (int \<times> nat option \<times> byte list option) option" where
  "dname_expand data ln off dst mx =
     (if off \<ge> ln then Some (- 1, None, dst)
      else dname_expand_loop data ln off off off 0 dst mx)"

subsection \<open>The cursor operations\<close>

definition unpack_init :: "byte list \<Rightarrow> nat \<Rightarrow> unpack" where
  "unpack_init b l = \<lparr>p_buf = b, p_len = l, p_offset = 0, p_err = None\<rparr>"

definition unpack_data :: "unpack \<Rightarrow> nat \<Rightarrow> (unpack \<times> byte list option) option" where
  "unpack_data p l =
     (if p_err p \<noteq> None then Some (p, None)
      else if sz_sub (p_len p) (p_offset p) < l then Some (p\<lparr>p_err := Some ''too short''\<rparr>, None)
      else case slice (p_buf p) (p_offset p) l of
             None \<Rightarrow> None
           | Some bs \<Rightarrow> Some (p\<lparr>p_offset := p_offset p + l\<rparr>, Some bs))"

text \<open>\<^verbatim>\<open>ntohs\<close> and \<^verbatim>\<open>ntohl\<close> of bytes taken from the wire: the big-endian value.\<close>
fun ntohs :: "byte list \<Rightarrow> 16 word" where
  "ntohs [a, b] = word_of_nat (256 * unat a + unat b)"
| "ntohs _ = 0"

fun ntohl :: "byte list \<Rightarrow> 32 word" where
  "ntohl [a, b, c, d] =
     word_of_nat (16777216 * unat a + 65536 * unat b + 256 * unat c + unat d)"
| "ntohl _ = 0"

definition unpack_u16 :: "unpack \<Rightarrow> (unpack \<times> 16 word option) option" where
  "unpack_u16 p = do { (p1, bs) \<leftarrow> unpack_data p 2; Some (p1, map_option ntohs bs) }"

definition unpack_u32 :: "unpack \<Rightarrow> (unpack \<times> 32 word option) option" where
  "unpack_u32 p = do { (p1, bs) \<leftarrow> unpack_data p 4; Some (p1, map_option ntohl bs) }"

definition unpack_inaddr :: "unpack \<Rightarrow> (unpack \<times> byte list option) option" where
  "unpack_inaddr p = unpack_data p 4"

definition unpack_in6addr :: "unpack \<Rightarrow> (unpack \<times> byte list option) option" where
  "unpack_in6addr p = unpack_data p 16"

text \<open>\<^verbatim>\<open>unpack_dname\<close> hands \<^verbatim>\<open>&p->offset\<close> to \<^verbatim>\<open>dname_expand\<close> as \<^verbatim>\<open>newoffset\<close>, so the
  cursor moves whenever \<^verbatim>\<open>dname_expand\<close> stores a new offset, also when the name
  is then refused as too long.\<close>
definition unpack_dname :: "unpack \<Rightarrow> nat \<Rightarrow> (unpack \<times> byte list option) option" where
  "unpack_dname p mx =
     (if p_err p \<noteq> None then Some (p, None)
      else case dname_expand (p_buf p) (p_len p) (p_offset p) (Some []) mx of
             None \<Rightarrow> None
           | Some (e, newoffset, dst) \<Rightarrow>
               let p1 = (case newoffset of None \<Rightarrow> p | Some off \<Rightarrow> p\<lparr>p_offset := off\<rparr>) in
               if e = - 1 then Some (p1\<lparr>p_err := Some ''bad domain name''\<rparr>, None)
               else if e < 0 \<or> e > int MAXDNAME
                 then Some (p1\<lparr>p_err := Some ''domain name too long''\<rparr>, None)
               else Some (p1, dst))"

definition unpack_header :: "unpack \<Rightarrow> (unpack \<times> dns_header option) option" where
  "unpack_header p = do {
     (p1, bs) \<leftarrow> unpack_data p HFIXEDSZ;
     Some (p1, map_option (\<lambda>h.
       \<lparr>h_id = take 2 h,
        h_flags = ntohs (take 2 (drop 2 h)),
        h_qdcount = ntohs (take 2 (drop 4 h)),
        h_ancount = ntohs (take 2 (drop 6 h)),
        h_nscount = ntohs (take 2 (drop 8 h)),
        h_arcount = ntohs (take 2 (drop 10 h))\<rparr>) bs)
   }"

definition unpack_query :: "unpack \<Rightarrow> (unpack \<times> dns_query option) option" where
  "unpack_query p = do {
     (p1, dn) \<leftarrow> unpack_dname p MAXDNAME;
     (p2, ty) \<leftarrow> unpack_u16 p1;
     (p3, cl) \<leftarrow> unpack_u16 p2;
     if p_err p3 \<noteq> None then Some (p3, None)
     else do {
       dn1 \<leftarrow> dn; ty1 \<leftarrow> ty; cl1 \<leftarrow> cl;
       Some (p3, Some \<lparr>q_dname = dn1, q_type = ty1, q_class = cl1\<rparr>)
     }
   }"

subsection \<open>Resource records\<close>

text \<open>
  \<^verbatim>\<open>unpack_rr\<close> in three parts, in the order of the source: the five reads before
  the first test of \<^verbatim>\<open>p->err\<close> (\<open>unpack_rr_fixed\<close>: name, type, class, TTL and
  \<^verbatim>\<open>rdlen\<close>), the \<^verbatim>\<open>switch\<close> on the type (\<open>unpack_rr_body\<close>), and the function
  itself, which tests the length left, saves the offset, runs the switch and compares
  the advance with \<^verbatim>\<open>rdlen\<close>.
\<close>

definition unpack_rr_fixed ::
  "unpack \<Rightarrow> (unpack \<times> byte list option \<times> 16 word option \<times> 16 word option
               \<times> 32 word option \<times> 16 word option) option" where
  "unpack_rr_fixed p = do {
     (p1, dn) \<leftarrow> unpack_dname p MAXDNAME;
     (p2, ty) \<leftarrow> unpack_u16 p1;
     (p3, cl) \<leftarrow> unpack_u16 p2;
     (p4, ttl) \<leftarrow> unpack_u32 p3;
     (p5, rdlen) \<leftarrow> unpack_u16 p4;
     Some (p5, dn, ty, cl, ttl, rdlen)
   }"

definition unpack_rr_body ::
  "unpack \<Rightarrow> 16 word \<Rightarrow> 16 word \<Rightarrow> 16 word \<Rightarrow> (unpack \<times> rr_body option) option" where
  "unpack_rr_body p ty cl rdlen =
     (if ty = T_CNAME then do {
        (p1, a) \<leftarrow> unpack_dname p MAXDNAME;
        Some (p1, map_option Rr_cname a) }
      else if ty = T_MX then do {
        (p1, a) \<leftarrow> unpack_u16 p;
        (p2, b) \<leftarrow> unpack_dname p1 MAXDNAME;
        Some (p2, do { a1 \<leftarrow> a; b1 \<leftarrow> b; Some (Rr_mx a1 b1) }) }
      else if ty = T_NS then do {
        (p1, a) \<leftarrow> unpack_dname p MAXDNAME;
        Some (p1, map_option Rr_ns a) }
      else if ty = T_PTR then do {
        (p1, a) \<leftarrow> unpack_dname p MAXDNAME;
        Some (p1, map_option Rr_ptr a) }
      else if ty = T_SOA then do {
        (p1, a) \<leftarrow> unpack_dname p MAXDNAME;
        (p2, b) \<leftarrow> unpack_dname p1 MAXDNAME;
        (p3, c) \<leftarrow> unpack_u32 p2;
        (p4, d) \<leftarrow> unpack_u32 p3;
        (p5, e) \<leftarrow> unpack_u32 p4;
        (p6, f) \<leftarrow> unpack_u32 p5;
        (p7, g) \<leftarrow> unpack_u32 p6;
        Some (p7, do { a1 \<leftarrow> a; b1 \<leftarrow> b; c1 \<leftarrow> c; d1 \<leftarrow> d; e1 \<leftarrow> e; f1 \<leftarrow> f; g1 \<leftarrow> g;
                       Some (Rr_soa a1 b1 c1 d1 e1 f1 g1) }) }
      else if ty = T_A \<and> cl = C_IN then do {
        (p1, a) \<leftarrow> unpack_inaddr p;
        Some (p1, map_option Rr_in_a a) }
      else if ty = T_AAAA \<and> cl = C_IN then do {
        (p1, a) \<leftarrow> unpack_in6addr p;
        Some (p1, map_option Rr_in_aaaa a) }
      else Some (p\<lparr>p_offset := p_offset p + unat rdlen\<rparr>, Some (Rr_other rdlen (p_offset p))))"

definition unpack_rr :: "unpack \<Rightarrow> (unpack \<times> dns_rr option) option" where
  "unpack_rr p = do {
     (p5, dn, ty, cl, ttl, rdlen) \<leftarrow> unpack_rr_fixed p;
     if p_err p5 \<noteq> None then Some (p5, None)
     else do {
       dn1 \<leftarrow> dn; ty1 \<leftarrow> ty; cl1 \<leftarrow> cl; ttl1 \<leftarrow> ttl; rdlen1 \<leftarrow> rdlen;
       if sz_sub (p_len p5) (p_offset p5) < unat rdlen1
       then Some (p5\<lparr>p_err := Some ''too short''\<rparr>, None)
       else do {
         (p6, body) \<leftarrow> unpack_rr_body p5 ty1 cl1 rdlen1;
         if p_err p6 \<noteq> None then Some (p6, None)
         else if sz_sub (p_offset p6) (p_offset p5) \<noteq> unat rdlen1
           then Some (p6\<lparr>p_err := Some ''bad dlen''\<rparr>, None)
         else do {
           body1 \<leftarrow> body;
           Some (p6, Some \<lparr>rr_dname = dn1, rr_type = ty1, rr_class = cl1,
                           rr_ttl = ttl1, rr_rr = body1\<rparr>)
         }
       }
     }
   }"

subsection \<open>C strings and the printable form of a name\<close>

text \<open>A C string is the list of its bytes before the terminating NUL.\<close>
type_synonym cstring = "byte list"

definition cs :: "string \<Rightarrow> cstring" where
  "cs s = map of_char s"

text \<open>The string held by a buffer: the bytes before its first NUL (\<^verbatim>\<open>strlen\<close> is its
  length).\<close>
definition c_str :: "byte list \<Rightarrow> cstring" where
  "c_str bs = takeWhile (\<lambda>b. b \<noteq> 0) bs"

definition c_tolower :: "byte \<Rightarrow> byte" where
  "c_tolower b = (if 65 \<le> unat b \<and> unat b \<le> 90 then b + 32 else b)"

text \<open>\<^verbatim>\<open>strncasecmp(a, b, n) == 0\<close> and \<^verbatim>\<open>strcasecmp(a, b) == 0\<close>.\<close>
definition strncasecmp_eq :: "cstring \<Rightarrow> cstring \<Rightarrow> nat \<Rightarrow> bool" where
  "strncasecmp_eq a b n = (map c_tolower (take n a) = map c_tolower (take n b))"

definition strcasecmp_eq :: "cstring \<Rightarrow> cstring \<Rightarrow> bool" where
  "strcasecmp_eq a b = (map c_tolower a = map c_tolower b)"

text \<open>The first character of a C string (\<^verbatim>\<open>*s\<close>); NUL for the empty string.\<close>
definition c_head :: "cstring \<Rightarrow> byte" where
  "c_head s = (case s of [] \<Rightarrow> 0 | c # _ \<Rightarrow> c)"

text \<open>
  The loop of \<^verbatim>\<open>print_dname\<close>: \<open>dname\<close> is what is left of the source buffer from
  the source's moving pointer on, \<open>left\<close> the room left, \<open>out\<close> the bytes written to
  \<^verbatim>\<open>buf\<close> so far. The counter \<^verbatim>\<open>n\<close> of the source is never read and is left out.
\<close>
function print_dname_loop :: "byte list \<Rightarrow> nat \<Rightarrow> byte list \<Rightarrow> byte list option" where
  "print_dname_loop dname left out =
     (case rd dname 0 of
        None \<Rightarrow> None
      | Some b \<Rightarrow>
          if unat b = 0 \<or> left = 0 then Some out
          else
            let count = (if unat b < left - 1 then unat b else left - 1) in
            (case slice dname 1 count of
               None \<Rightarrow> None
             | Some bs \<Rightarrow>
                 if left - count \<noteq> 0
                 then print_dname_loop (drop (unat b + 1) dname) (left - count - 1) (out @ bs @ [46])
                 else print_dname_loop (drop (unat b + 1) dname) (left - count) (out @ bs)))"
  by pat_completeness auto
termination
  by (relation "measure (\<lambda>(dname, left, out). length dname)") (auto simp: rd_def split: if_splits)

declare print_dname_loop.simps [simp del]

text \<open>\<^verbatim>\<open>print_dname\<close> returns the bytes written before the final NUL. Both callers pass
  \<open>mx = 512\<close>; \<^verbatim>\<open>strlcpy(buf, ".", max)\<close> writes the dot when \<open>mx \<ge> 2\<close>.\<close>
definition print_dname :: "byte list \<Rightarrow> nat \<Rightarrow> byte list option" where
  "print_dname dname mx =
     (case rd dname 0 of
        None \<Rightarrow> None
      | Some b \<Rightarrow>
          if b = 0 then Some (take (mx - 1) [46])
          else print_dname_loop dname (sz_sub mx 1) [])"

subsection \<open>The address-literal recognizer\<close>

text \<open>Modelled from the spec: \<^verbatim>\<open>SMTPD_MAXDOMAINPARTSIZE\<close> (\<^verbatim>\<open>smtpd.h\<close>) and
  \<^verbatim>\<open>HOST_NAME_MAX\<close> (\<^verbatim>\<open>limits.h\<close>) are not part of the sources; the specification
  gives 255 for both.\<close>
definition SMTPD_MAXDOMAINPARTSIZE :: nat where "SMTPD_MAXDOMAINPARTSIZE = 255"
definition HOST_NAME_MAX :: nat where "HOST_NAME_MAX = 255"

text \<open>\<^verbatim>\<open>struct addrinfo\<close>, as far as the code reads it, and the hints it fills. The
  values of \<^verbatim>\<open>AI_NUMERICHOST\<close>, \<^verbatim>\<open>SOCK_STREAM\<close>, \<^verbatim>\<open>AF_INET6\<close> and \<^verbatim>\<open>PF_UNSPEC\<close> are
  those of the OpenBSD headers.\<close>
record addrinfo =
  ai_addrlen :: nat
  ai_addr :: "byte list"

record ai_hints =
  hint_flags :: nat
  hint_family :: nat
  hint_socktype :: nat

definition AI_NUMERICHOST :: nat where "AI_NUMERICHOST = 4"
definition SOCK_STREAM :: nat where "SOCK_STREAM = 1"
definition AF_INET6 :: nat where "AF_INET6 = 24"
definition PF_UNSPEC :: nat where "PF_UNSPEC = 0"

text \<open>
  \<^verbatim>\<open>getaddrinfo\<close> is the system's; it is a parameter \<open>gai\<close> that maps the host string
  and the hints to the error code and the result list (\<^verbatim>\<open>res\<close> is null when the list
  is empty). The caller's \<^verbatim>\<open>sa\<close> and \<^verbatim>\<open>sl\<close> are passed in and returned: \<open>None\<close> is
  a null pointer, \<open>Some\<close> the content of the object pointed to.
\<close>
definition domainname_is_addr ::
  "(cstring \<Rightarrow> ai_hints \<Rightarrow> int \<times> addrinfo list) \<Rightarrow> cstring \<Rightarrow> byte list option \<Rightarrow> nat option
     \<Rightarrow> int \<times> byte list option \<times> nat option" where
  "domainname_is_addr gai s sa sl =
     (if c_head s \<noteq> of_char CHR ''[''  then (0, sa, sl)
      else
        let i6 = strncasecmp_eq (cs ''[IPv6:'') s 6;
            s1 = drop (if i6 then 6 else 1) s;
            l = length s1;
            buf = take (SMTPD_MAXDOMAINPARTSIZE - 1) s1
        in
        if l \<ge> SMTPD_MAXDOMAINPARTSIZE \<or> l = 0 \<or> buf ! (l - 1) \<noteq> of_char CHR '']'' then (0, sa, sl)
        else
          let buf1 = take (l - 1) buf;
              hints = \<lparr>hint_flags = AI_NUMERICHOST,
                       hint_family = (if i6 then AF_INET6 else 0),
                       hint_socktype = SOCK_STREAM\<rparr>
          in
          case snd (gai buf1 hints) of
            [] \<Rightarrow> (0, sa, sl)
          | res # _ \<Rightarrow>
              (case (sa, sl) of
                 (Some a, Some n) \<Rightarrow>
                   let sl2 = (if n > ai_addrlen res then ai_addrlen res else n) in
                   (1, Some (take sl2 (ai_addr res) @ drop sl2 a), Some (ai_addrlen res))
               | _ \<Rightarrow> (1, sa, sl)))"

subsection \<open>Sessions, messages and the resolver interface\<close>

text \<open>The message types of \<^verbatim>\<open>smtpd.h\<close> that the code names; \<open>IMSG_OTHER\<close> stands for
  every other type.\<close>
datatype imsg_type =
    IMSG_MTA_DNS_HOST
  | IMSG_MTA_DNS_HOST_END
  | IMSG_MTA_DNS_PTR
  | IMSG_SMTP_DNS_PTR
  | IMSG_MTA_DNS_MX
  | IMSG_MTA_DNS_MX_PREFERENCE
  | IMSG_OTHER nat

text \<open>\<^verbatim>\<open>enum dns_error\<close> of \<^verbatim>\<open>smtpd.h\<close>: the status codes \<open>OK\<close>, \<open>Retry\<close>, \<open>Invalid\<close>,
  \<open>NoName\<close> and \<open>NotFound\<close> of the specification.\<close>
datatype dns_error = DNS_OK | DNS_RETRY | DNS_EINVAL | DNS_ENONAME | DNS_ENOTFOUND

text \<open>What \<^verbatim>\<open>m_add_id\<close>, \<^verbatim>\<open>m_add_sockaddr\<close>, \<^verbatim>\<open>m_add_int\<close> and \<^verbatim>\<open>m_add_string\<close> append
  to a message. An \<^verbatim>\<open>m_add_int\<close> of a \<^verbatim>\<open>DNS_*\<close> constant is \<open>F_status\<close>, since
  the numbers of the enumeration are not in the sources.\<close>
datatype field =
    F_id "64 word"
  | F_sockaddr "byte list"
  | F_int int
  | F_status dns_error
  | F_string cstring

record imsg =
  hdr_type :: imsg_type
  m_fields :: "field list"

text \<open>\<^verbatim>\<open>struct dns_session\<close>. The channel \<^verbatim>\<open>p\<close> is left out: a session composes all
  its messages on its own \<^verbatim>\<open>s->p\<close>. \<^verbatim>\<open>mxfound\<close> counts messages and is a natural
  number (no run emits \<open>2 ^ 64\<close> of them).\<close>
record dns_session =
  s_reqid :: "64 word"
  s_type :: imsg_type
  s_name :: cstring
  s_mxfound :: nat
  s_error :: int
  s_refcount :: int

text \<open>\<^verbatim>\<open>struct dns_lookup\<close>; its \<^verbatim>\<open>session\<close> pointer is the one session of the request.\<close>
record dns_lookup =
  l_preference :: int

text \<open>The three asynchronous queries, and the callback with its argument that
  \<^verbatim>\<open>event_asr_run\<close> registers. A registration holds the query handle, \<open>None\<close> when
  the \<^verbatim>\<open>*_async\<close> call returned a null pointer.\<close>
datatype asr_query =
    Getaddrinfo_async cstring ai_hints
  | Getnameinfo_async "byte list"
  | Res_query_async cstring "16 word" "16 word"

datatype dispatch =
    Dispatch_host dns_lookup
  | Dispatch_ptr
  | Dispatch_mx
  | Dispatch_mx_preference

type_synonym asr_run = "asr_query option \<times> dispatch"

text \<open>\<^verbatim>\<open>struct asr_result\<close>, as far as the callbacks read it. \<open>ar_hostbuf\<close> is the
  string that \<^verbatim>\<open>getnameinfo_async\<close> has left in the buffer it was given, which is
  \<^verbatim>\<open>s->name\<close>.\<close>
record asr_result =
  ar_addrinfo :: "addrinfo list"
  ar_gai_errno :: int
  ar_h_errno :: int
  ar_rcode :: int
  ar_data :: "byte list"
  ar_datalen :: nat
  ar_hostbuf :: cstring

text \<open>The values of \<^verbatim>\<open>NO_RECOVERY\<close> and \<^verbatim>\<open>NO_DATA\<close> (\<^verbatim>\<open>netdb.h\<close>) and of the response
  code \<^verbatim>\<open>NXDOMAIN\<close> (\<^verbatim>\<open>arpa/nameser.h\<close>).\<close>
definition NO_RECOVERY :: int where "NO_RECOVERY = 3"
definition NO_DATA :: int where "NO_DATA = 4"
definition NXDOMAIN :: int where "NXDOMAIN = 3"

text \<open>The environment of a handler: the system's \<^verbatim>\<open>getaddrinfo\<close>, whether an
  \<^verbatim>\<open>*_async\<close> call on a query returns a handle (\<open>True\<close>) or a null pointer, and the
  bytes that the uninitialised local \<^verbatim>\<open>ss\<close> of \<^verbatim>\<open>dns_imsg\<close> holds.\<close>
record env =
  getaddrinfo :: "cstring \<Rightarrow> ai_hints \<Rightarrow> int \<times> addrinfo list"
  submit :: "asr_query \<Rightarrow> bool"
  ss_init :: "byte list"

text \<open>What a handler has done when it returns: the session (\<open>None\<close> once it is
  freed), the messages it has closed, in order, and the callbacks it has registered.\<close>
record effect =
  e_session :: "dns_session option"
  e_msgs :: "imsg list"
  e_runs :: "asr_run list"

subsection \<open>The handlers\<close>

definition dns_lookup_host :: "env \<Rightarrow> dns_session \<Rightarrow> cstring \<Rightarrow> int \<Rightarrow> dns_session \<times> asr_run" where
  "dns_lookup_host ev s host preference =
     (let lookup = \<lparr>l_preference = preference\<rparr>;
          s1 = s\<lparr>s_refcount := s_refcount s + 1\<rparr>;
          host1 = (if c_head host = of_char CHR ''[''
                   then
                     let h = (if strncasecmp_eq (cs ''[IPv6:'') host 6 then drop 6 host else drop 1 host);
                         hostcopy = take HOST_NAME_MAX h
                     in takeWhile (\<lambda>c. c \<noteq> of_char CHR '']'') hostcopy
                   else host);
          q = Getaddrinfo_async host1
                \<lparr>hint_flags = 0, hint_family = PF_UNSPEC, hint_socktype = SOCK_STREAM\<rparr>
      in (s1, (if submit ev q then Some q else None, Dispatch_host lookup)))"

text \<open>The \<^verbatim>\<open>for\<close> loop of \<^verbatim>\<open>dns_dispatch_host\<close> over the address list.\<close>
fun host_loop :: "dns_session \<Rightarrow> dns_lookup \<Rightarrow> addrinfo list \<Rightarrow> imsg list \<Rightarrow> dns_session \<times> imsg list" where
  "host_loop s lookup [] msgs = (s, msgs)"
| "host_loop s lookup (ai # rest) msgs =
     host_loop (s\<lparr>s_mxfound := s_mxfound s + 1\<rparr>) lookup rest
       (msgs @ [\<lparr>hdr_type = IMSG_MTA_DNS_HOST,
                  m_fields = [F_id (s_reqid s), F_sockaddr (ai_addr ai), F_int (l_preference lookup)]\<rparr>])"

definition dns_dispatch_host :: "dns_session \<Rightarrow> dns_lookup \<Rightarrow> asr_result \<Rightarrow> effect" where
  "dns_dispatch_host s lookup ar =
     (let (s1, msgs) = host_loop s lookup (ar_addrinfo ar) [];
          s2 = (if ar_gai_errno ar \<noteq> 0 then s1\<lparr>s_error := ar_gai_errno ar\<rparr> else s1);
          s3 = s2\<lparr>s_refcount := s_refcount s2 - 1\<rparr>
      in if s_refcount s3 \<noteq> 0 then \<lparr>e_session = Some s3, e_msgs = msgs, e_runs = []\<rparr>
         else \<lparr>e_session = None,
               e_msgs = msgs @ [\<lparr>hdr_type = IMSG_MTA_DNS_HOST_END,
                                 m_fields = [F_id (s_reqid s3),
                                           F_status (if s_mxfound s3 \<noteq> 0 then DNS_OK else DNS_ENOTFOUND)]\<rparr>],
               e_runs = []\<rparr>)"

definition dns_dispatch_ptr :: "dns_session \<Rightarrow> asr_result \<Rightarrow> effect" where
  "dns_dispatch_ptr s ar =
     \<lparr>e_session = None,
      e_msgs = [\<lparr>hdr_type = s_type s,
                 m_fields = [F_id (s_reqid s),
                           F_status (if ar_gai_errno ar \<noteq> 0 then DNS_ENOTFOUND else DNS_OK)]
                          @ (if ar_gai_errno ar = 0 then [F_string (ar_hostbuf ar)] else [])\<rparr>],
      e_runs = []\<rparr>"

text \<open>
  The answer loop of \<^verbatim>\<open>dns_dispatch_mx\<close>; \<open>n\<close> is \<^verbatim>\<open>h.ancount\<close>. It returns the
  session, the registrations made and \<^verbatim>\<open>found\<close>. \<^verbatim>\<open>buf[strlen(buf) - 1] = '\0'\<close>
  with an empty \<^verbatim>\<open>buf\<close> writes before the buffer: that is \<open>None\<close>, as a read outside
  the buffer is.
\<close>
fun mx_loop ::
  "env \<Rightarrow> nat \<Rightarrow> unpack \<Rightarrow> dns_session \<Rightarrow> asr_run list \<Rightarrow> nat
     \<Rightarrow> (dns_session \<times> asr_run list \<times> nat) option" where
  "mx_loop ev 0 p s runs found = Some (s, runs, found)"
| "mx_loop ev (Suc n) p s runs found =
     (case unpack_rr p of
        None \<Rightarrow> None
      | Some (p1, None) \<Rightarrow> Some (s, runs, found)
      | Some (p1, Some rr) \<Rightarrow>
          if rr_type rr \<noteq> T_MX then mx_loop ev n p1 s runs found
          else (case rr_rr rr of
                  Rr_mx preference exchange \<Rightarrow>
                    (case print_dname exchange 512 of
                       None \<Rightarrow> None
                     | Some buf \<Rightarrow>
                         if length (c_str buf) = 0 then None
                         else
                           let (s1, run) = dns_lookup_host ev s
                                             (take (length (c_str buf) - 1) (c_str buf))
                                             (uint preference)
                           in mx_loop ev n p1 s1 (runs @ [run]) (found + 1))
                | _ \<Rightarrow> None))"

definition dns_dispatch_mx :: "env \<Rightarrow> dns_session \<Rightarrow> asr_result \<Rightarrow> effect option" where
  "dns_dispatch_mx ev s ar =
     (if ar_h_errno ar \<noteq> 0 \<and> ar_h_errno ar \<noteq> NO_DATA then
        Some \<lparr>e_session = None,
              e_msgs = [\<lparr>hdr_type = IMSG_MTA_DNS_HOST_END,
                         m_fields = [F_id (s_reqid s),
                                   F_status (if ar_rcode ar = NXDOMAIN then DNS_ENONAME
                                             else if ar_h_errno ar = NO_RECOVERY then DNS_EINVAL
                                             else DNS_RETRY)]\<rparr>],
              e_runs = []\<rparr>
      else do {
        (p1, h) \<leftarrow> unpack_header (unpack_init (ar_data ar) (ar_datalen ar));
        case h of
          None \<Rightarrow> Some \<lparr>e_session = Some s, e_msgs = [], e_runs = []\<rparr>
        | Some h1 \<Rightarrow> do {
            (p2, q) \<leftarrow> unpack_query p1;
            case q of
              None \<Rightarrow> Some \<lparr>e_session = Some s, e_msgs = [], e_runs = []\<rparr>
            | Some q1 \<Rightarrow> do {
                (s1, runs, found) \<leftarrow> mx_loop ev (unat (h_ancount h1)) p2 s [] 0;
                if found = 0
                then (let (s2, run) = dns_lookup_host ev s1 (s_name s1) 0
                      in Some \<lparr>e_session = Some s2, e_msgs = [], e_runs = runs @ [run]\<rparr>)
                else Some \<lparr>e_session = Some s1, e_msgs = [], e_runs = runs\<rparr>
              }
          }
      })"

text \<open>The answer loop of \<^verbatim>\<open>dns_dispatch_mx_preference\<close>: \<open>Some preference\<close> when an
  exchange matches \<^verbatim>\<open>s->name\<close> (\<^verbatim>\<open>error = DNS_OK\<close>), \<open>None\<close> when the loop ends
  without a match.\<close>
fun mx_preference_loop :: "nat \<Rightarrow> unpack \<Rightarrow> dns_session \<Rightarrow> 16 word option option" where
  "mx_preference_loop 0 p s = Some None"
| "mx_preference_loop (Suc n) p s =
     (case unpack_rr p of
        None \<Rightarrow> None
      | Some (p1, None) \<Rightarrow> Some None
      | Some (p1, Some rr) \<Rightarrow>
          if rr_type rr \<noteq> T_MX then mx_preference_loop n p1 s
          else (case rr_rr rr of
                  Rr_mx preference exchange \<Rightarrow>
                    (case print_dname exchange 512 of
                       None \<Rightarrow> None
                     | Some buf \<Rightarrow>
                         if length (c_str buf) = 0 then None
                         else if strcasecmp_eq (s_name s) (take (length (c_str buf) - 1) (c_str buf))
                           then Some (Some preference)
                         else mx_preference_loop n p1 s)
                | _ \<Rightarrow> None))"

definition mx_preference_reply :: "dns_session \<Rightarrow> dns_error \<Rightarrow> 16 word option \<Rightarrow> effect" where
  "mx_preference_reply s error preference =
     \<lparr>e_session = None,
      e_msgs = [\<lparr>hdr_type = IMSG_MTA_DNS_MX_PREFERENCE,
                 m_fields = [F_id (s_reqid s), F_status error]
                          @ (case preference of
                               Some v \<Rightarrow> if error = DNS_OK then [F_int (uint v)] else []
                             | None \<Rightarrow> [])\<rparr>],
      e_runs = []\<rparr>"

definition dns_dispatch_mx_preference :: "dns_session \<Rightarrow> asr_result \<Rightarrow> effect option" where
  "dns_dispatch_mx_preference s ar =
     (if ar_h_errno ar \<noteq> 0 then
        Some (mx_preference_reply s
                (if ar_rcode ar = NXDOMAIN then DNS_ENONAME
                 else if ar_h_errno ar = NO_RECOVERY \<or> ar_h_errno ar = NO_DATA then DNS_EINVAL
                 else DNS_RETRY) None)
      else do {
        (p1, h) \<leftarrow> unpack_header (unpack_init (ar_data ar) (ar_datalen ar));
        case h of
          None \<Rightarrow> Some (mx_preference_reply s DNS_ENOTFOUND None)
        | Some h1 \<Rightarrow> do {
            (p2, q) \<leftarrow> unpack_query p1;
            case q of
              None \<Rightarrow> Some (mx_preference_reply s DNS_ENOTFOUND None)
            | Some q1 \<Rightarrow> do {
                m \<leftarrow> mx_preference_loop (unat (h_ancount h1)) p2 s;
                case m of
                  None \<Rightarrow> Some (mx_preference_reply s DNS_ENOTFOUND None)
                | Some v \<Rightarrow> Some (mx_preference_reply s DNS_OK (Some v))
              }
          }
      })"

text \<open>
  \<^verbatim>\<open>dns_imsg\<close>. The request is the message type and the fields that \<^verbatim>\<open>m_get_id\<close>,
  \<^verbatim>\<open>m_get_string\<close> and \<^verbatim>\<open>m_get_sockaddr\<close> take from it; \<open>None\<close> is \<^verbatim>\<open>fatal\<close> (an
  unknown type, or fields that do not fit the type). The session starts zeroed, as
  \<^verbatim>\<open>xcalloc\<close> leaves it.
\<close>
definition dns_imsg :: "env \<Rightarrow> imsg \<Rightarrow> effect option" where
  "dns_imsg ev m =
     (case (hdr_type m, m_fields m) of
        (IMSG_MTA_DNS_HOST, [F_id reqid, F_string host]) \<Rightarrow>
          (let s = \<lparr>s_reqid = reqid, s_type = IMSG_MTA_DNS_HOST, s_name = [], s_mxfound = 0,
                    s_error = 0, s_refcount = 0\<rparr>;
               (s1, run) = dns_lookup_host ev s host (- 1)
           in Some \<lparr>e_session = Some s1, e_msgs = [], e_runs = [run]\<rparr>)
      | (IMSG_MTA_DNS_PTR, [F_id reqid, F_sockaddr sa]) \<Rightarrow>
          (let s = \<lparr>s_reqid = reqid, s_type = IMSG_MTA_DNS_PTR, s_name = [], s_mxfound = 0,
                    s_error = 0, s_refcount = 0\<rparr>;
               q = Getnameinfo_async sa
           in Some \<lparr>e_session = Some s, e_msgs = [],
                    e_runs = [(if submit ev q then Some q else None, Dispatch_ptr)]\<rparr>)
      | (IMSG_SMTP_DNS_PTR, [F_id reqid, F_sockaddr sa]) \<Rightarrow>
          (let s = \<lparr>s_reqid = reqid, s_type = IMSG_SMTP_DNS_PTR, s_name = [], s_mxfound = 0,
                    s_error = 0, s_refcount = 0\<rparr>;
               q = Getnameinfo_async sa
           in Some \<lparr>e_session = Some s, e_msgs = [],
                    e_runs = [(if submit ev q then Some q else None, Dispatch_ptr)]\<rparr>)
      | (IMSG_MTA_DNS_MX, [F_id reqid, F_string domain]) \<Rightarrow>
          (let s = \<lparr>s_reqid = reqid, s_type = IMSG_MTA_DNS_MX,
                    s_name = take HOST_NAME_MAX domain, s_mxfound = 0,
                    s_error = 0, s_refcount = 0\<rparr>;
               (r, sa, sl) = domainname_is_addr (getaddrinfo ev) domain
                               (Some (ss_init ev)) (Some (length (ss_init ev)))
           in if r \<noteq> 0 then
                Some \<lparr>e_session = None,
                      e_msgs = [\<lparr>hdr_type = IMSG_MTA_DNS_HOST,
                                 m_fields = [F_id (s_reqid s), F_sockaddr (the sa), F_int (- 1)]\<rparr>,
                                \<lparr>hdr_type = IMSG_MTA_DNS_HOST_END,
                                 m_fields = [F_id (s_reqid s), F_status DNS_OK]\<rparr>],
                      e_runs = []\<rparr>
              else
                let q = Res_query_async (s_name s) C_IN T_MX in
                if \<not> submit ev q then
                  Some \<lparr>e_session = None,
                        e_msgs = [\<lparr>hdr_type = IMSG_MTA_DNS_HOST_END,
                                   m_fields = [F_id (s_reqid s), F_status DNS_EINVAL]\<rparr>],
                        e_runs = []\<rparr>
                else Some \<lparr>e_session = Some s, e_msgs = [], e_runs = [(Some q, Dispatch_mx)]\<rparr>)
      | (IMSG_MTA_DNS_MX_PREFERENCE, [F_id reqid, F_string domain, F_string mx]) \<Rightarrow>
          (let s = \<lparr>s_reqid = reqid, s_type = IMSG_MTA_DNS_MX_PREFERENCE,
                    s_name = take HOST_NAME_MAX mx, s_mxfound = 0,
                    s_error = 0, s_refcount = 0\<rparr>;
               q = Res_query_async domain C_IN T_MX
           in if \<not> submit ev q then
                Some \<lparr>e_session = None,
                      e_msgs = [\<lparr>hdr_type = IMSG_MTA_DNS_MX_PREFERENCE,
                                 m_fields = [F_id (s_reqid s), F_status DNS_ENOTFOUND]\<rparr>],
                      e_runs = []\<rparr>
              else Some \<lparr>e_session = Some s, e_msgs = [], e_runs = [(Some q, Dispatch_mx_preference)]\<rparr>)
      | _ \<Rightarrow> None)"

subsection \<open>Compression pointers, as the specification speaks of them\<close>

text \<open>
  The specification compares the target of a pointer with the start offset of the
  name that is being expanded. These two functions follow its words about the wire
  format, not the loop of \<^verbatim>\<open>dname_expand\<close>. \<open>first_pointer data ln a\<close> reads the name
  that starts at offset \<open>a\<close>: it steps over plain labels, each a length byte followed
  by that many bytes inside the buffer, and returns the offset of the first length
  byte with both high bits set together with the 14-bit target that this byte and
  the next one form; it is \<open>None\<close> when the name ends, or breaks off, before any
  pointer. \<open>expands_to data ln a0 a\<close> says that expanding the name at \<open>a0\<close> comes to
  expand the name at \<open>a\<close>: either \<open>a\<close> is \<open>a0\<close>, or the first pointer of the name at
  \<open>a0\<close> has a target below \<open>a0\<close> and expanding the name at that target comes to \<open>a\<close>.
\<close>
function first_pointer :: "byte list \<Rightarrow> nat \<Rightarrow> nat \<Rightarrow> (nat \<times> nat) option" where
  "first_pointer data ln a =
     (case rd data a of
        None \<Rightarrow> None
      | Some b \<Rightarrow>
          if unat b = 0 then None
          else if unat b AND 192 = 192 then
            (if a + 2 > ln then None
             else case rd data (a + 1) of
                 None \<Rightarrow> None
               | Some b1 \<Rightarrow> Some (a, 256 * (unat b AND 63) + unat b1))
          else if a + unat b + 1 > ln \<or> slice data a (unat b + 1) = None then None
          else first_pointer data ln (a + unat b + 1))"
  by pat_completeness auto
termination
  by (relation "measure (\<lambda>(data, ln, a). ln - a)") auto

declare first_pointer.simps [simp del]

function expands_to :: "byte list \<Rightarrow> nat \<Rightarrow> nat \<Rightarrow> nat \<Rightarrow> bool" where
  "expands_to data ln a0 a =
     (if a0 = a then True
      else case first_pointer data ln a0 of
          None \<Rightarrow> False
        | Some (off, ptr) \<Rightarrow> if ptr < a0 then expands_to data ln ptr a else False)"
  by pat_completeness auto
termination
  by (relation "measure (\<lambda>(data, ln, a0, a). a0)") auto

declare expands_to.simps [simp del]

subsection \<open>Environments for the examples\<close>

text \<open>A \<^verbatim>\<open>getaddrinfo\<close> that finds no address (\<^verbatim>\<open>res\<close> stays null), one that fails with
  \<^verbatim>\<open>EAI_NONAME\<close>, a resolver whose \<^verbatim>\<open>*_async\<close> calls always return a handle, and one
  whose calls always return a null pointer.\<close>
definition gai_nothing :: "cstring \<Rightarrow> ai_hints \<Rightarrow> int \<times> addrinfo list" where
  "gai_nothing host hints = (0, [])"

definition gai_noname :: "cstring \<Rightarrow> ai_hints \<Rightarrow> int \<times> addrinfo list" where
  "gai_noname host hints = (- 2, [])"

definition submit_ok :: "asr_query \<Rightarrow> bool" where
  "submit_ok q = True"

definition submit_null :: "asr_query \<Rightarrow> bool" where
  "submit_null q = False"

subsection \<open>The answer section, as the specification speaks of it\<close>

text \<open>
  The specification counts the MX records that the answer section of a response
  decodes to. \<open>decode_answers n p\<close> follows these words, not the handlers: it is the
  list of the records that \<^verbatim>\<open>unpack_rr\<close> decodes from the cursor \<open>p\<close> on, at most \<open>n\<close>
  of them (\<open>n\<close> is the header's \<^verbatim>\<open>ancount\<close>), up to the first one that fails to
  decode. \<open>rr_mx_preference\<close> reads the preference of a decoded MX record.
\<close>
fun decode_answers :: "nat \<Rightarrow> unpack \<Rightarrow> dns_rr list option" where
  "decode_answers 0 p = Some []"
| "decode_answers (Suc n) p =
     (case unpack_rr p of
        None \<Rightarrow> None
      | Some (p1, None) \<Rightarrow> Some []
      | Some (p1, Some rr) \<Rightarrow> map_option ((#) rr) (decode_answers n p1))"

definition rr_mx_preference :: "dns_rr \<Rightarrow> 16 word" where
  "rr_mx_preference rr = (case rr_rr rr of Rr_mx preference exchange \<Rightarrow> preference | _ \<Rightarrow> 0)"

section \<open>Properties of the decoder\<close>

subsection \<open>The expansion loop\<close>

text \<open>
  What \<^verbatim>\<open>dname_expand\<close> returns when it returns: either -1 with nothing stored through
  \<^verbatim>\<open>newoffset\<close>, or a positive length with a new offset that is not before the old one
  and, when the buffer is \<open>ln\<close> bytes long, not behind its end.
\<close>

lemma loop_result:
  "dname_expand_loop data ln off start e res dst mx = Some (r, no, d) \<Longrightarrow>
   (r = - 1 \<and> no = None) \<or>
   (r \<ge> 1 \<and> (\<exists>e'. no = Some e' \<and> e \<le> e' \<and> (e \<le> ln \<and> length data \<le> ln \<longrightarrow> e' \<le> ln)))"
proof (induction data ln off start e res dst mx arbitrary: r no d rule: dname_expand_loop.induct)
  case (1 data ln off start e res dst mx)
  note run = "1.prems"(1)
  from run obtain b where b: "rd data off = Some b"
    by (subst (asm) dname_expand_loop.simps) (auto split: option.splits)
  then have offlt: "off < length data" by (auto simp: rd_def split: if_splits)
  define n where "n = unat b"
  show ?case
  proof (cases "n = 0")
    case True
    with run b offlt show ?thesis
      by (subst (asm) dname_expand_loop.simps) (auto simp: n_def Let_def split: if_splits)
  next
    case n0: False
    show ?thesis
    proof (cases "n AND 192 = 192")
      case True
      show ?thesis
      proof (cases "ln < off + 2")
        case True
        with run b n0 \<open>n AND 192 = 192\<close> show ?thesis
          by (subst (asm) dname_expand_loop.simps) (auto simp: n_def Let_def split: if_splits)
      next
        case le: False
        with run b n0 True obtain b1 where b1: "rd data (off + 1) = Some b1"
          by (subst (asm) dname_expand_loop.simps) (auto simp: n_def Let_def split: if_splits option.splits)
        define ptr where "ptr = 256 * (n AND 63) + unat b1"
        show ?thesis
        proof (cases "start \<le> ptr")
          case True
          with run b b1 n0 \<open>n AND 192 = 192\<close> le show ?thesis
            by (subst (asm) dname_expand_loop.simps) (auto simp: n_def ptr_def Let_def split: if_splits)
        next
          case lt: False
          with run b b1 n0 True le have
            rec: "dname_expand_loop data ln ptr ptr (if e < off + 2 then off + 2 else e) res dst mx = Some (r, no, d)"
            by (subst (asm) dname_expand_loop.simps) (auto simp: n_def ptr_def Let_def split: if_splits)
          from "1.IH"(1) [OF b n_def n0 True le b1 ptr_def lt rec] le show ?thesis
            by (auto split: if_splits)
        qed
      qed
    next
      case False
      show ?thesis
      proof (cases "ln < off + n + 1")
        case True
        with run b n0 False show ?thesis
          by (subst (asm) dname_expand_loop.simps) (auto simp: n_def Let_def split: if_splits)
      next
        case le: False
        show ?thesis
        proof (cases "dst \<noteq> None \<and> mx \<noteq> 0")
          case c: True
          define count where "count = (if mx < n + 1 then mx else n + 1)"
          from run b n0 False le c obtain bs where bs: "slice data off count = Some bs"
            and rec: "dname_expand_loop data ln (off + n + 1) start
                     (if e < off + n + 1 then off + n + 1 else e) (res + n + 1)
                     (Some (the dst @ bs)) (mx - count) = Some (r, no, d)"
            by (subst (asm) dname_expand_loop.simps)
               (auto simp: n_def count_def Let_def split: if_splits option.splits)
          from "1.IH"(2) [OF b n_def n0 False le c count_def bs rec] le show ?thesis
            by (auto split: if_splits)
        next
          case c: False
          with run b n0 False le have
            rec: "dname_expand_loop data ln (off + n + 1) start
                     (if e < off + n + 1 then off + n + 1 else e) (res + n + 1) dst mx = Some (r, no, d)"
            by (subst (asm) dname_expand_loop.simps) (auto simp: n_def Let_def split: if_splits option.splits)
          from "1.IH"(3) [OF b n_def n0 False le c rec] le show ?thesis
            by (auto split: if_splits)
        qed
      qed
    qed
  qed
qed

lemma loop_len:
  "dname_expand_loop data ln off start e res dst mx = Some (r, no, d) \<Longrightarrow> r \<noteq> - 1 \<Longrightarrow>
   dst = Some d0 \<Longrightarrow> length d0 + mx = M \<Longrightarrow> length d0 = min res M \<Longrightarrow>
   (\<exists>d'. d = Some d' \<and> length d' = min (nat r) M)"
proof (induction data ln off start e res dst mx arbitrary: r no d d0 rule: dname_expand_loop.induct)
  case (1 data ln off start e res dst mx)
  note run = "1.prems"(1) and inv = "1.prems"(2-5)
  from run obtain b where b: "rd data off = Some b"
    by (subst (asm) dname_expand_loop.simps) (auto split: option.splits)
  define n where "n = unat b"
  show ?case
  proof (cases "n = 0")
    case True
    with run b inv show ?thesis
      by (subst (asm) dname_expand_loop.simps) (auto simp: n_def Let_def min_def split: if_splits)
  next
    case n0: False
    show ?thesis
    proof (cases "n AND 192 = 192")
      case True
      with run b n0 inv obtain b1 where b1: "rd data (off + 1) = Some b1" and le: "\<not> ln < off + 2"
        by (subst (asm) dname_expand_loop.simps) (auto simp: n_def Let_def split: if_splits option.splits)
      define ptr where "ptr = 256 * (n AND 63) + unat b1"
      from run b b1 n0 True le inv have lt: "\<not> start \<le> ptr"
        and rec: "dname_expand_loop data ln ptr ptr (if e < off + 2 then off + 2 else e) res dst mx = Some (r, no, d)"
        by (subst (asm) dname_expand_loop.simps, auto simp: n_def ptr_def Let_def split: if_splits)+
      from "1.IH"(1) [OF b n_def n0 True le b1 ptr_def lt rec inv] show ?thesis .
    next
      case False
      with run b n0 inv have le: "\<not> ln < off + n + 1"
        by (subst (asm) dname_expand_loop.simps) (auto simp: n_def Let_def split: if_splits option.splits)
      show ?thesis
      proof (cases "dst \<noteq> None \<and> mx \<noteq> 0")
        case c: True
        define count where "count = (if mx < n + 1 then mx else n + 1)"
        from run b n0 False le c obtain bs where bs: "slice data off count = Some bs"
          and rec: "dname_expand_loop data ln (off + n + 1) start
                   (if e < off + n + 1 then off + n + 1 else e) (res + n + 1)
                   (Some (the dst @ bs)) (mx - count) = Some (r, no, d)"
          by (subst (asm) dname_expand_loop.simps) (auto simp: n_def count_def Let_def split: if_splits option.splits)
        from bs have lbs: "length bs = count" by (auto simp: slice_def split: if_splits)
        have i1: "length (the dst @ bs) + (mx - count) = M"
          using inv lbs by (auto simp: count_def)
        have i2: "length (the dst @ bs) = min (res + n + 1) M"
          using inv lbs by (auto simp: count_def min_def split: if_splits)
        from "1.IH"(2) [OF b n_def n0 False le c count_def bs rec inv(1) refl i1 i2] show ?thesis .
      next
        case c: False
        with run b n0 False le have
          rec: "dname_expand_loop data ln (off + n + 1) start
                   (if e < off + n + 1 then off + n + 1 else e) (res + n + 1) dst mx = Some (r, no, d)"
          by (subst (asm) dname_expand_loop.simps) (auto simp: n_def Let_def split: if_splits option.splits)
        have i2: "length d0 = min (res + n + 1) M"
          using inv c by (auto simp: min_def split: if_splits)
        from "1.IH"(3) [OF b n_def n0 False le c rec inv(1) inv(2) inv(3) i2] show ?thesis .
      qed
    qed
  qed
qed


lemma dname_expand_ret:
  "dname_expand data ln off dst mx = Some (r, no, d) \<Longrightarrow>
   (r = - 1 \<and> no = None) \<or> (r \<ge> 1 \<and> (\<exists>e'. no = Some e' \<and> off \<le> e'))"
  by (auto simp: dname_expand_def split: if_splits dest: loop_result)

lemma dname_expand_bound:
  "dname_expand data ln off dst mx = Some (r, Some e', d) \<Longrightarrow> length data \<le> ln \<Longrightarrow> e' \<le> ln"
  by (auto simp: dname_expand_def split: if_splits dest!: loop_result)

lemma dname_expand_len:
  "dname_expand data ln off (Some []) M = Some (r, no, d) \<Longrightarrow> r \<noteq> - 1 \<Longrightarrow>
   (\<exists>d'. d = Some d' \<and> length d' = min (nat r) M)"
  by (auto simp: dname_expand_def split: if_splits dest: loop_len [where M = M])

lemma unpack_dname_sticky: "p_err p \<noteq> None \<Longrightarrow> unpack_dname p mx = Some (p, None)"
  by (simp add: unpack_dname_def)

lemma unpack_dname_step:
  assumes "unpack_dname p mx = Some (p', v)"
  shows "p_buf p' = p_buf p \<and> p_len p' = p_len p \<and> p_offset p \<le> p_offset p'
       \<and> (v = None \<longleftrightarrow> p_err p' \<noteq> None)
       \<and> (p_err p = None \<and> p_err p' = None \<and> length (p_buf p) \<le> p_len p \<longrightarrow> p_offset p' \<le> p_len p)"
  using assms
  by (auto simp: unpack_dname_def Let_def split: if_splits option.splits prod.splits
           dest: dname_expand_ret dname_expand_bound dname_expand_len)

lemma unpack_data_sticky: "p_err p \<noteq> None \<Longrightarrow> unpack_data p l = Some (p, None)"
  by (simp add: unpack_data_def)

lemma unpack_data_step:
  assumes "unpack_data p l = Some (p', v)"
  shows "p_buf p' = p_buf p \<and> p_len p' = p_len p \<and> p_offset p \<le> p_offset p'
       \<and> (v = None \<longleftrightarrow> p_err p' \<noteq> None)
       \<and> (v \<noteq> None \<longrightarrow> p_offset p' = p_offset p + l)
       \<and> (p_offset p \<le> p_len p \<longrightarrow> p_offset p' \<le> p_len p)"
  using assms
  by (auto simp: unpack_data_def sz_sub_def split: if_splits option.splits)

lemma unpack_u16_step:
  assumes "unpack_u16 p = Some (p', v)"
  shows "p_buf p' = p_buf p \<and> p_len p' = p_len p \<and> p_offset p \<le> p_offset p'
       \<and> (v = None \<longleftrightarrow> p_err p' \<noteq> None)
       \<and> (v \<noteq> None \<longrightarrow> p_offset p' = p_offset p + 2)
       \<and> (p_offset p \<le> p_len p \<longrightarrow> p_offset p' \<le> p_len p)"
  using assms
  by (auto simp: unpack_u16_def split: Option.bind_splits dest!: unpack_data_step)

lemma unpack_u32_step:
  assumes "unpack_u32 p = Some (p', v)"
  shows "p_buf p' = p_buf p \<and> p_len p' = p_len p \<and> p_offset p \<le> p_offset p'
       \<and> (v = None \<longleftrightarrow> p_err p' \<noteq> None)
       \<and> (v \<noteq> None \<longrightarrow> p_offset p' = p_offset p + 4)
       \<and> (p_offset p \<le> p_len p \<longrightarrow> p_offset p' \<le> p_len p)"
  using assms
  by (auto simp: unpack_u32_def split: Option.bind_splits dest!: unpack_data_step)

lemma unpack_u16_sticky: "p_err p \<noteq> None \<Longrightarrow> unpack_u16 p = Some (p, None)"
  by (simp add: unpack_u16_def unpack_data_def)

lemma unpack_u32_sticky: "p_err p \<noteq> None \<Longrightarrow> unpack_u32 p = Some (p, None)"
  by (simp add: unpack_u32_def unpack_data_def)

subsection \<open>Resource records\<close>

lemma unpack_rr_fixed_ok:
  assumes f: "unpack_rr_fixed p = Some (p5, dn, ty, cl, ttl, rdlen)" and e5: "p_err p5 = None"
  shows "p_buf p5 = p_buf p \<and> p_len p5 = p_len p \<and> dn \<noteq> None \<and> ty \<noteq> None \<and> cl \<noteq> None
       \<and> ttl \<noteq> None \<and> rdlen \<noteq> None \<and> (length (p_buf p) \<le> p_len p \<longrightarrow> p_offset p5 \<le> p_len p)"
proof -
  from f obtain p1 p2 p3 p4 where
    s1: "unpack_dname p MAXDNAME = Some (p1, dn)" and s2: "unpack_u16 p1 = Some (p2, ty)" and
    s3: "unpack_u16 p2 = Some (p3, cl)" and s4: "unpack_u32 p3 = Some (p4, ttl)" and
    s5: "unpack_u16 p4 = Some (p5, rdlen)"
    by (auto simp: unpack_rr_fixed_def split: Option.bind_splits)
  have e4: "p_err p4 = None" using s5 e5 unpack_u16_sticky [of p4] by (cases "p_err p4") auto
  have e3: "p_err p3 = None" using s4 e4 unpack_u32_sticky [of p3] by (cases "p_err p3") auto
  have e2: "p_err p2 = None" using s3 e3 unpack_u16_sticky [of p2] by (cases "p_err p2") auto
  have e1: "p_err p1 = None" using s2 e2 unpack_u16_sticky [of p1] by (cases "p_err p1") auto
  have e0: "p_err p = None" using s1 e1 unpack_dname_sticky [of p] by (cases "p_err p") auto
  note a1 = unpack_dname_step [OF s1] and a2 = unpack_u16_step [OF s2] and a3 = unpack_u16_step [OF s3]
    and a4 = unpack_u32_step [OF s4] and a5 = unpack_u16_step [OF s5]
  from a1 a2 a3 a4 a5 e0 e1 e2 e3 e4 e5 show ?thesis by auto
qed

lemma unpack_rr_body_other:
  assumes "unpack_rr_body p ty cl rdlen = Some (p', Some (Rr_other n off))"
  shows "n = rdlen \<and> off = p_offset p"
  using assms
  by (auto simp: unpack_rr_body_def split: if_splits Option.bind_splits)

lemmas dec_eval = unpack_rr_def unpack_rr_fixed_def unpack_rr_body_def unpack_dname_def unpack_u16_def
  unpack_u32_def unpack_data_def unpack_init_def dname_expand_def dname_expand_loop.simps rd_def slice_def
  sz_sub_def SIZE_MAX1_def MAXDNAME_def HFIXEDSZ_def Let_def T_A_def T_NS_def T_CNAME_def T_SOA_def
  T_PTR_def T_MX_def T_AAAA_def C_IN_def unpack_inaddr_def unpack_in6addr_def unpack_header_def
  unpack_query_def

text \<open>
  When the memory ends where the buffer ends, so that \<open>p_len p\<close> is the length of the
  list, a run of \<^verbatim>\<open>unpack_rr\<close> that stores the opaque arm leaves a view inside the
  buffer: \<^verbatim>\<open>p->len - p->offset < rdlen\<close> was tested before the body was decoded, and
  the cursor was not behind the end of the buffer then.
\<close>

lemma unpack_rr_other_exact_buffer:
  assumes len: "p_len p = length (p_buf p)"
    and ok: "unpack_rr p = Some (p', Some rr)"
    and other: "rr_rr rr = Rr_other rdlen rdata"
  shows "rdata + unat rdlen \<le> length (p_buf p) \<and> p_buf p' = p_buf p"
proof -
  from ok obtain p5 dn ty cl ttl rl where
    f: "unpack_rr_fixed p = Some (p5, dn, ty, cl, ttl, rl)"
    by (auto simp: unpack_rr_def split: Option.bind_splits)
  from ok f have e5: "p_err p5 = None"
    by (auto simp: unpack_rr_def split: Option.bind_splits if_splits)
  from unpack_rr_fixed_ok [OF f e5] len obtain dn1 ty1 cl1 ttl1 rl1 where
    v: "dn = Some dn1" "ty = Some ty1" "cl = Some cl1" "ttl = Some ttl1" "rl = Some rl1"
    and fr: "p_buf p5 = p_buf p" "p_len p5 = p_len p" "p_offset p5 \<le> p_len p"
    by auto
  from ok f e5 v obtain p6 body where
    room: "\<not> sz_sub (p_len p5) (p_offset p5) < unat rl1"
    and b: "unpack_rr_body p5 ty1 cl1 rl1 = Some (p6, Some body)"
    and rr: "rr = \<lparr>rr_dname = dn1, rr_type = ty1, rr_class = cl1, rr_ttl = ttl1, rr_rr = body\<rparr>"
    and p': "p' = p6"
    by (auto simp: unpack_rr_def split: Option.bind_splits if_splits)
  from rr other have "body = Rr_other rdlen rdata" by simp
  with b have b': "unpack_rr_body p5 ty1 cl1 rl1 = Some (p6, Some (Rr_other rdlen rdata))" by simp
  from unpack_rr_body_other [OF b'] have eq: "rdlen = rl1" "rdata = p_offset p5" by auto
  from b' have "p_buf p6 = p_buf p5"
    by (auto simp: unpack_rr_body_def split: if_splits Option.bind_splits)
  with room fr eq len p' show ?thesis by (auto simp: sz_sub_def split: if_splits)
qed

text \<open>
  Claim C10. The test \<^verbatim>\<open>p->len - p->offset < rdlen\<close> protects the view only while
  the cursor is inside the buffer. Take the two-byte buffer that holds the label \<open>a\<close>,
  followed in memory by a zero byte and the ten fixed bytes and two data bytes of a
  record of type 99. \<^verbatim>\<open>dname_expand\<close> reads the zero byte behind the buffer and
  leaves the cursor at 3, behind \<^verbatim>\<open>len = 2\<close>; from then on \<^verbatim>\<open>p->len - p->offset\<close>
  wraps around, every test passes, and \<^verbatim>\<open>unpack_rr\<close> returns 0 with the opaque arm
  \<^verbatim>\<open>rdata = buf + 13\<close>, \<^verbatim>\<open>rdlen = 2\<close>: a view that lies wholly outside the buffer.
\<close>

theorem unpack_rr_other_behind_buffer:
  "unpack_rr (unpack_init [1, 97, 0, 0, 99, 0, 1, 0, 0, 0, 0, 0, 2, 170, 187] 2)
     = Some (\<lparr>p_buf = [1, 97, 0, 0, 99, 0, 1, 0, 0, 0, 0, 0, 2, 170, 187], p_len = 2,
              p_offset = 15, p_err = None\<rparr>,
             Some \<lparr>rr_dname = [1, 97, 0], rr_type = 99, rr_class = 1, rr_ttl = 0,
                   rr_rr = Rr_other 2 13\<rparr>)
   \<and> \<not> 13 + unat (2 :: 16 word) \<le> 2"
  by (simp add: dec_eval)

lemma unpack_dname_mono: "unpack_dname p mx = Some (p', v) \<Longrightarrow> p_offset p \<le> p_offset p'"
  by (simp add: unpack_dname_step)

lemma unpack_data_mono: "unpack_data p l = Some (p', v) \<Longrightarrow> p_offset p \<le> p_offset p'"
  by (simp add: unpack_data_step)

lemma unpack_u16_mono: "unpack_u16 p = Some (p', v) \<Longrightarrow> p_offset p \<le> p_offset p'"
  by (simp add: unpack_u16_step)

lemma unpack_u32_mono: "unpack_u32 p = Some (p', v) \<Longrightarrow> p_offset p \<le> p_offset p'"
  by (simp add: unpack_u32_step)

lemma unpack_rr_body_mono:
  assumes "unpack_rr_body p ty cl rdlen = Some (p', b)"
  shows "p_offset p \<le> p_offset p'"
proof -
  consider (cname) "ty = T_CNAME" | (mx) "ty \<noteq> T_CNAME" "ty = T_MX"
    | (ns) "ty \<noteq> T_CNAME" "ty \<noteq> T_MX" "ty = T_NS"
    | (ptr) "ty \<noteq> T_CNAME" "ty \<noteq> T_MX" "ty \<noteq> T_NS" "ty = T_PTR"
    | (soa) "ty \<noteq> T_CNAME" "ty \<noteq> T_MX" "ty \<noteq> T_NS" "ty \<noteq> T_PTR" "ty = T_SOA"
    | (rest) "ty \<noteq> T_CNAME" "ty \<noteq> T_MX" "ty \<noteq> T_NS" "ty \<noteq> T_PTR" "ty \<noteq> T_SOA"
    by blast
  then show ?thesis
  proof cases
    case cname
    with assms show ?thesis
      by (auto simp: unpack_rr_body_def split: Option.bind_splits dest: unpack_dname_mono)
  next
    case mx
    with assms obtain p1 a b1 where "unpack_u16 p = Some (p1, a)" "unpack_dname p1 MAXDNAME = Some (p', b1)"
      by (auto simp: unpack_rr_body_def split: Option.bind_splits)
    then show ?thesis using unpack_u16_mono unpack_dname_mono by (meson le_trans)
  next
    case ns
    with assms show ?thesis
      by (auto simp: unpack_rr_body_def split: Option.bind_splits dest: unpack_dname_mono)
  next
    case ptr
    with assms show ?thesis
      by (auto simp: unpack_rr_body_def split: Option.bind_splits dest: unpack_dname_mono)
  next
    case soa
    with assms obtain p1 p2 p3 p4 p5 p6 a b1 c d e f g where
      "unpack_dname p MAXDNAME = Some (p1, a)" "unpack_dname p1 MAXDNAME = Some (p2, b1)"
      "unpack_u32 p2 = Some (p3, c)" "unpack_u32 p3 = Some (p4, d)" "unpack_u32 p4 = Some (p5, e)"
      "unpack_u32 p5 = Some (p6, f)" "unpack_u32 p6 = Some (p', g)"
      by (auto simp: unpack_rr_body_def split: Option.bind_splits)
    then have "p_offset p \<le> p_offset p1" "p_offset p1 \<le> p_offset p2" "p_offset p2 \<le> p_offset p3"
      "p_offset p3 \<le> p_offset p4" "p_offset p4 \<le> p_offset p5" "p_offset p5 \<le> p_offset p6"
      "p_offset p6 \<le> p_offset p'"
      by (simp_all add: unpack_dname_mono unpack_u32_mono)
    then show ?thesis by linarith
  next
    case rest
    with assms show ?thesis
      by (auto simp: unpack_rr_body_def unpack_inaddr_def unpack_in6addr_def
               split: Option.bind_splits if_splits dest: unpack_data_mono)
  qed
qed

text \<open>
  Claim C6. Whenever \<^verbatim>\<open>unpack_rr\<close> returns 0, the cursor stands exactly \<^verbatim>\<open>rdlen\<close>
  bytes behind the position it had after the five fixed reads (the source's
  \<^verbatim>\<open>save_offset\<close>), \<^verbatim>\<open>rdlen\<close> being the value those reads took from the wire. And
  when the body has been decoded without an error but the cursor has moved by another
  amount, \<^verbatim>\<open>unpack_rr\<close> returns -1 and leaves the error \<open>bad dlen\<close>.
\<close>

theorem unpack_rr_rdlength:
  "(\<forall>p' rr. unpack_rr p = Some (p', Some rr) \<longrightarrow>
      (\<exists>p5 dn ty cl ttl rdlen.
          unpack_rr_fixed p = Some (p5, dn, ty, cl, ttl, Some rdlen)
        \<and> p_offset p' = p_offset p5 + unat rdlen))
   \<and> (\<forall>p5 dn ty cl ttl rdlen p6 b.
          unpack_rr_fixed p = Some (p5, Some dn, Some ty, Some cl, Some ttl, Some rdlen)
        \<and> p_err p5 = None
        \<and> \<not> sz_sub (p_len p5) (p_offset p5) < unat rdlen
        \<and> unpack_rr_body p5 ty cl rdlen = Some (p6, b)
        \<and> p_err p6 = None
        \<and> p_offset p6 \<noteq> p_offset p5 + unat rdlen
      \<longrightarrow> unpack_rr p = Some (p6\<lparr>p_err := Some ''bad dlen''\<rparr>, None))"
proof (intro conjI allI impI)
  fix p' rr
  assume ok: "unpack_rr p = Some (p', Some rr)"
  from ok obtain p5 dn ty cl ttl rl where
    f: "unpack_rr_fixed p = Some (p5, dn, ty, cl, ttl, rl)"
    by (auto simp: unpack_rr_def split: Option.bind_splits)
  from ok f have e5: "p_err p5 = None"
    by (auto simp: unpack_rr_def split: Option.bind_splits if_splits)
  from unpack_rr_fixed_ok [OF f e5] obtain dn1 ty1 cl1 ttl1 rl1 where
    v: "dn = Some dn1" "ty = Some ty1" "cl = Some cl1" "ttl = Some ttl1" "rl = Some rl1"
    by auto
  from ok f e5 v obtain body where
    b: "unpack_rr_body p5 ty1 cl1 rl1 = Some (p', body)"
    and adv: "sz_sub (p_offset p') (p_offset p5) = unat rl1"
    by (auto simp: unpack_rr_def split: Option.bind_splits if_splits)
  from unpack_rr_body_mono [OF b] adv have "p_offset p' = p_offset p5 + unat rl1"
    by (auto simp: sz_sub_def split: if_splits)
  with f v show "\<exists>p5 dn ty cl ttl rdlen.
          unpack_rr_fixed p = Some (p5, dn, ty, cl, ttl, Some rdlen)
        \<and> p_offset p' = p_offset p5 + unat rdlen" by blast
next
  fix p5 dn ty cl ttl rdlen p6 b
  assume h: "unpack_rr_fixed p = Some (p5, Some dn, Some ty, Some cl, Some ttl, Some rdlen)
        \<and> p_err p5 = None
        \<and> \<not> sz_sub (p_len p5) (p_offset p5) < unat rdlen
        \<and> unpack_rr_body p5 ty cl rdlen = Some (p6, b)
        \<and> p_err p6 = None
        \<and> p_offset p6 \<noteq> p_offset p5 + unat rdlen"
  then have m: "p_offset p5 \<le> p_offset p6" using unpack_rr_body_mono by blast
  with h have "sz_sub (p_offset p6) (p_offset p5) \<noteq> unat rdlen"
    by (auto simp: sz_sub_def)
  with h show "unpack_rr p = Some (p6\<lparr>p_err := Some ''bad dlen''\<rparr>, None)"
    by (simp add: unpack_rr_def)
qed

theorem unpack_rr_rdlength_witness:
  "unpack_rr (unpack_init [0, 0, 99, 0, 1, 0, 0, 0, 0, 0, 2, 170, 187] 13)
     = Some (\<lparr>p_buf = [0, 0, 99, 0, 1, 0, 0, 0, 0, 0, 2, 170, 187], p_len = 13,
              p_offset = 13, p_err = None\<rparr>,
             Some \<lparr>rr_dname = [0], rr_type = 99, rr_class = 1, rr_ttl = 0, rr_rr = Rr_other 2 11\<rparr>)
   \<and> (\<exists>p5 dn ty cl ttl rdlen.
         unpack_rr_fixed (unpack_init [0, 0, 99, 0, 1, 0, 0, 0, 0, 0, 2, 170, 187] 13)
           = Some (p5, dn, ty, cl, ttl, Some rdlen)
         \<and> 13 = p_offset p5 + unat rdlen)
   \<and> unpack_rr (unpack_init [0, 0, 15, 0, 1, 0, 0, 0, 0, 0, 5, 0, 10, 0, 170, 187] 16)
     = Some (\<lparr>p_buf = [0, 0, 15, 0, 1, 0, 0, 0, 0, 0, 5, 0, 10, 0, 170, 187], p_len = 16,
              p_offset = 14, p_err = Some ''bad dlen''\<rparr>, None)"
proof -
  let ?a = "[0, 0, 99, 0, 1, 0, 0, 0, 0, 0, 2, 170, 187] :: byte list"
  let ?b = "[0, 0, 15, 0, 1, 0, 0, 0, 0, 0, 5, 0, 10, 0, 170, 187] :: byte list"
  let ?b5 = "\<lparr>p_buf = ?b, p_len = 16, p_offset = 11, p_err = None\<rparr>"
  let ?b6 = "\<lparr>p_buf = ?b, p_len = 16, p_offset = 14, p_err = None\<rparr>"
  have a: "unpack_rr (unpack_init ?a 13)
     = Some (\<lparr>p_buf = ?a, p_len = 13, p_offset = 13, p_err = None\<rparr>,
             Some \<lparr>rr_dname = [0], rr_type = 99, rr_class = 1, rr_ttl = 0, rr_rr = Rr_other 2 11\<rparr>)"
    by (simp add: dec_eval)
  have b1: "unpack_rr_fixed (unpack_init ?b 16) = Some (?b5, Some [0], Some 15, Some 1, Some 0, Some 5)"
    by (simp add: dec_eval)
  have b2: "unpack_rr_body ?b5 15 1 5 = Some (?b6, Some (Rr_mx 10 [0]))"
    by (simp add: dec_eval)
  have b3: "\<not> sz_sub (p_len ?b5) (p_offset ?b5) < unat (5 :: 16 word)"
    by (simp add: sz_sub_def)
  note t1 = unpack_rr_rdlength [of "unpack_init ?a 13", THEN conjunct1, rule_format, OF a]
  note t2 = unpack_rr_rdlength [of "unpack_init ?b 16", THEN conjunct2, rule_format,
              of ?b5 "[0]" 15 1 0 5 ?b6 "Some (Rr_mx 10 [0])"]
  from b1 b2 b3 have "unpack_rr (unpack_init ?b 16) = Some (?b6\<lparr>p_err := Some ''bad dlen''\<rparr>, None)"
    by (intro t2) simp
  with a t1 show ?thesis by simp
qed

lemma and63_le: "unat (b :: byte) AND 63 \<le> 63"
proof -
  have "b AND 63 \<le> 63" by (rule word_and_le1)
  then have "unat (b AND 63) \<le> unat (63 :: byte)" by (simp only: word_le_nat_alt)
  then show ?thesis by (simp add: unsigned_and_eq)
qed

lemma loop_pointer_reject:
  assumes "rd data off = Some b" "unat b AND 192 = 192" "off + 2 \<le> ln" "rd data (off + 1) = Some b1"
    and "start \<le> 256 * (unat b AND 63) + unat b1"
  shows "dname_expand_loop data ln off start e res dst mx = Some (- 1, None, dst)"
proof -
  have n0: "unat b \<noteq> 0"
  proof
    assume "unat b = 0"
    with assms(2) show False by simp
  qed
  with assms show ?thesis by (subst dname_expand_loop.simps) (simp add: Let_def)
qed

lemma loop_pointer_follow:
  assumes "rd data off = Some b" "unat b AND 192 = 192" "off + 2 \<le> ln" "rd data (off + 1) = Some b1"
    and "256 * (unat b AND 63) + unat b1 < start"
  shows "dname_expand_loop data ln off start e res dst mx
            = dname_expand_loop data ln (256 * (unat b AND 63) + unat b1)
                (256 * (unat b AND 63) + unat b1) (if e < off + 2 then off + 2 else e) res dst mx"
proof -
  have n0: "unat b \<noteq> 0"
  proof
    assume "unat b = 0"
    with assms(2) show False by simp
  qed
  with assms show ?thesis by (subst dname_expand_loop.simps) (simp add: Let_def)
qed

lemma first_pointer_label:
  assumes fp: "first_pointer data ln a = Some (off, ptr)" and b: "rd data a = Some b"
    and np: "unat b AND 192 \<noteq> 192"
  shows "unat b \<noteq> 0 \<and> a + unat b + 1 \<le> ln \<and> a + unat b + 1 \<le> length data
       \<and> first_pointer data ln (a + unat b + 1) = Some (off, ptr)"
proof -
  have eq: "first_pointer data ln a =
     (if unat b = 0 then None
      else if a + unat b + 1 > ln \<or> slice data a (unat b + 1) = None then None
      else first_pointer data ln (a + unat b + 1))"
    using b np by (subst first_pointer.simps) simp
  from fp eq have n0: "unat b \<noteq> 0" by (cases "unat b = 0") simp_all
  from fp eq n0 have le: "\<not> (a + unat b + 1 > ln \<or> slice data a (unat b + 1) = None)"
    by (cases "a + unat b + 1 > ln \<or> slice data a (unat b + 1) = None") simp_all
  from fp eq n0 le have rec: "first_pointer data ln (a + unat b + 1) = Some (off, ptr)"
    by (auto split: if_splits)
  from le have "a + unat b + 1 \<le> length data" by (simp add: slice_def split: if_splits)
  with n0 le rec show ?thesis by simp
qed

lemma first_pointer_here:
  assumes fp: "first_pointer data ln a = Some (off, ptr)" and b: "rd data a = Some b"
    and p: "unat b AND 192 = 192"
  shows "off = a \<and> a + 2 \<le> ln \<and> (\<exists>b1. rd data (a + 1) = Some b1 \<and> ptr = 256 * (unat b AND 63) + unat b1)"
proof -
  have n0: "unat b \<noteq> 0"
  proof
    assume "unat b = 0"
    with p show False by simp
  qed
  have eq: "first_pointer data ln a =
     (if a + 2 > ln then None
      else case rd data (a + 1) of
          None \<Rightarrow> None
        | Some b1 \<Rightarrow> Some (a, 256 * (unat b AND 63) + unat b1))"
    using b p n0 by (subst first_pointer.simps) simp
  from fp eq have le: "a + 2 \<le> ln" by (cases "a + 2 > ln") simp_all
  from fp eq le obtain b1 where "rd data (a + 1) = Some b1" by (cases "rd data (a + 1)") simp_all
  with fp eq le show ?thesis by simp
qed

lemma first_pointer_Some_rd:
  "first_pointer data ln a = Some r \<Longrightarrow> \<exists>b. rd data a = Some b"
  by (subst (asm) first_pointer.simps) (cases "rd data a", simp_all)

lemma loop_label_step:
  assumes b: "rd data a = Some b" and n0: "unat b \<noteq> 0" and np: "unat b AND 192 \<noteq> 192"
    and le: "a + unat b + 1 \<le> ln" and mem: "a + unat b + 1 \<le> length data"
  shows "\<exists>e1 res1 dst1 mx1.
         dname_expand_loop data ln a start e res dst mx
           = dname_expand_loop data ln (a + unat b + 1) start e1 res1 dst1 mx1"
proof (cases "dst \<noteq> None \<and> mx \<noteq> 0")
  case c: True
  define count where "count = (if mx < unat b + 1 then mx else unat b + 1)"
  from mem have "a + count \<le> length data" by (simp add: count_def)
  then obtain bs where bs: "slice data a count = Some bs" by (simp add: slice_def)
  have "dname_expand_loop data ln a start e res dst mx
          = dname_expand_loop data ln (a + unat b + 1) start
              (if e < a + unat b + 1 then a + unat b + 1 else e) (res + unat b + 1)
              (Some (the dst @ bs)) (mx - count)"
    using b n0 np le c bs
    by (subst dname_expand_loop.simps) (simp add: Let_def count_def)
  then show ?thesis by blast
next
  case c: False
  have "dname_expand_loop data ln a start e res dst mx
          = dname_expand_loop data ln (a + unat b + 1) start
              (if e < a + unat b + 1 then a + unat b + 1 else e) (res + unat b + 1) dst mx"
    using b n0 np le c
    by (subst dname_expand_loop.simps) (auto simp: Let_def)
  then show ?thesis by blast
qed

lemma first_pointer_at:
  "first_pointer data ln a = Some (off, ptr) \<Longrightarrow>
   a \<le> off \<and> off + 2 \<le> ln
   \<and> (\<exists>b b1. rd data off = Some b \<and> unat b AND 192 = 192 \<and> rd data (off + 1) = Some b1
           \<and> ptr = 256 * (unat b AND 63) + unat b1)"
proof (induction data ln a rule: first_pointer.induct)
  case (1 data ln a)
  note fp = "1.prems"
  from first_pointer_Some_rd [OF fp] obtain b where b: "rd data a = Some b" by blast
  show ?case
  proof (cases "unat b AND 192 = 192")
    case True
    from first_pointer_here [OF fp b True] b True show ?thesis by auto
  next
    case False
    note l = first_pointer_label [OF fp b False]
    from l have c: "\<not> (ln < a + unat b + 1 \<or> slice data a (unat b + 1) = None)"
      by (simp add: slice_def)
    from "1.IH" [OF b _ False c] l
    have "a + unat b + 1 \<le> off \<and> off + 2 \<le> ln
   \<and> (\<exists>b b1. rd data off = Some b \<and> unat b AND 192 = 192 \<and> rd data (off + 1) = Some b1
           \<and> ptr = 256 * (unat b AND 63) + unat b1)" by blast
    then show ?thesis by auto
  qed
qed

lemma first_pointer_loop:
  "first_pointer data ln a = Some (off, ptr) \<Longrightarrow>
   \<exists>e' res' dst' mx'.
         dname_expand_loop data ln a start e res dst mx
           = dname_expand_loop data ln off start e' res' dst' mx'"
proof (induction data ln a arbitrary: e res dst mx rule: first_pointer.induct)
  case (1 data ln a)
  note fp = "1.prems"
  from first_pointer_Some_rd [OF fp] obtain b where b: "rd data a = Some b" by blast
  show ?case
  proof (cases "unat b AND 192 = 192")
    case True
    from first_pointer_here [OF fp b True] have "off = a" by simp
    then show ?thesis by blast
  next
    case False
    note l = first_pointer_label [OF fp b False]
    from l have c: "\<not> (ln < a + unat b + 1 \<or> slice data a (unat b + 1) = None)"
      by (simp add: slice_def)
    from l have n0: "unat b \<noteq> 0" and le: "a + unat b + 1 \<le> ln" and mem: "a + unat b + 1 \<le> length data"
      and rec: "first_pointer data ln (a + unat b + 1) = Some (off, ptr)" by simp_all
    from loop_label_step [OF b n0 False le mem, of start e res dst mx] obtain e1 res1 dst1 mx1 where
      s: "dname_expand_loop data ln a start e res dst mx
           = dname_expand_loop data ln (a + unat b + 1) start e1 res1 dst1 mx1" by blast
    from "1.IH" [OF b n0 False c rec, of e1 res1 dst1 mx1] obtain e' res' dst' mx' where
      "dname_expand_loop data ln (a + unat b + 1) start e1 res1 dst1 mx1
           = dname_expand_loop data ln off start e' res' dst' mx'" by blast
    with s show ?thesis by metis
  qed
qed


lemma expands_to_step:
  assumes "a0 \<noteq> a" and "expands_to data ln a0 a"
  shows "\<exists>off ptr. first_pointer data ln a0 = Some (off, ptr) \<and> ptr < a0 \<and> expands_to data ln ptr a"
  using assms
  by (subst (asm) expands_to.simps) (auto split: option.splits if_splits)

lemma expands_to_refl: "expands_to data ln a a"
  by (subst expands_to.simps) simp

lemma expands_to_intro:
  assumes "first_pointer data ln a0 = Some (off, ptr)" and "ptr < a0" and "expands_to data ln ptr a"
  shows "expands_to data ln a0 a"
  using assms by (subst expands_to.simps) simp

lemma expands_to_loop:
  "expands_to data ln a0 a \<Longrightarrow>
   \<exists>e' res' dst' mx'.
      dname_expand_loop data ln a0 a0 e res dst mx = dname_expand_loop data ln a a e' res' dst' mx'"
proof (induction data ln a0 a arbitrary: e res dst mx rule: expands_to.induct)
  case (1 data ln a0 a)
  show ?case
  proof (cases "a0 = a")
    case True
    then show ?thesis by blast
  next
    case False
    from expands_to_step [OF False "1.prems"] obtain off ptr where
      fp: "first_pointer data ln a0 = Some (off, ptr)" and lt: "ptr < a0"
      and rest: "expands_to data ln ptr a" by blast
    from first_pointer_at [OF fp] obtain b b1 where
      p: "rd data off = Some b" "unat b AND 192 = 192" "off + 2 \<le> ln" "rd data (off + 1) = Some b1"
      and ptr: "ptr = 256 * (unat b AND 63) + unat b1" by blast
    from first_pointer_loop [OF fp, of a0 e res dst mx] obtain e1 res1 dst1 mx1 where
      s1: "dname_expand_loop data ln a0 a0 e res dst mx
             = dname_expand_loop data ln off a0 e1 res1 dst1 mx1" by blast
    from lt ptr have lt': "256 * (unat b AND 63) + unat b1 < a0" by simp
    from loop_pointer_follow [OF p lt', of e1 res1 dst1 mx1] ptr have
      s2: "dname_expand_loop data ln off a0 e1 res1 dst1 mx1
             = dname_expand_loop data ln ptr ptr (if e1 < off + 2 then off + 2 else e1) res1 dst1 mx1"
      by simp
    from "1.IH" [OF False fp refl lt rest, of "if e1 < off + 2 then off + 2 else e1" res1 dst1 mx1]
    obtain e' res' dst' mx' where
      s3: "dname_expand_loop data ln ptr ptr (if e1 < off + 2 then off + 2 else e1) res1 dst1 mx1
             = dname_expand_loop data ln a a e' res' dst' mx'" by blast
    from s1 s2 s3 show ?thesis by metis
  qed
qed

lemma expands_to_extend:
  "expands_to data ln a0 a \<Longrightarrow> first_pointer data ln a = Some (off, ptr) \<Longrightarrow> ptr < a \<Longrightarrow>
   expands_to data ln a0 ptr"
proof (induction data ln a0 a rule: expands_to.induct)
  case (1 data ln a0 a)
  show ?case
  proof (cases "a0 = a")
    case True
    with "1.prems" show ?thesis by (auto intro: expands_to_intro expands_to_refl)
  next
    case False
    from expands_to_step [OF False "1.prems"(1)] obtain off0 ptr0 where
      fp: "first_pointer data ln a0 = Some (off0, ptr0)" and lt: "ptr0 < a0"
      and rest: "expands_to data ln ptr0 a" by blast
    from "1.IH" [OF False fp refl lt rest "1.prems"(2) "1.prems"(3)]
    have "expands_to data ln ptr0 ptr" .
    from expands_to_intro [OF fp lt this] show ?thesis .
  qed
qed

lemma expands_to_inside:
  assumes "expands_to data ln a0 a" and "first_pointer data ln a = Some (off, ptr)"
  shows "a0 < ln"
proof (cases "a0 = a")
  case True
  with first_pointer_at [OF assms(2)] show ?thesis by simp
next
  case False
  from expands_to_step [OF False assms(1)] obtain off0 ptr0 where
    "first_pointer data ln a0 = Some (off0, ptr0)" by blast
  from first_pointer_at [OF this] show ?thesis by simp
qed

text \<open>
  Claim C4. Let the expansion of the name at \<open>a0\<close> come to expand the name at \<open>a\<close>
  (the name at \<open>a0\<close> itself, or one reached from it through pointers), and let the
  first pointer of the name at \<open>a\<close>, behind any number of labels, stand at \<open>off\<close> with
  the target \<open>ptr\<close>. The target is below \<open>2 ^ 14\<close>. If it is not strictly below \<open>a\<close>,
  the start offset of the name being expanded, \<^verbatim>\<open>dname_expand\<close> on the name at \<open>a0\<close>
  returns -1 and \<^verbatim>\<open>unpack_dname\<close> fails with the error \<open>bad domain name\<close>, leaving
  the cursor where it was; so \<^verbatim>\<open>unpack_dname\<close> succeeds only if the target is
  strictly below \<open>a\<close>. If it is below, the expansion goes on with the name at the
  target: the loop continues there with \<^verbatim>\<open>start\<close> and \<^verbatim>\<open>offset\<close> equal to the target.
\<close>

theorem unpack_dname_pointer:
  assumes chain: "expands_to data ln a0 a" and fp: "first_pointer data ln a = Some (off, ptr)"
  shows "ptr < 2 ^ 14
     \<and> (a \<le> ptr \<longrightarrow>
          (\<exists>d. dname_expand data ln a0 dst mx = Some (- 1, None, d))
        \<and> (\<forall>p. p_err p = None \<and> p_buf p = data \<and> p_len p = ln \<and> p_offset p = a0 \<longrightarrow>
               unpack_dname p cap = Some (p\<lparr>p_err := Some ''bad domain name''\<rparr>, None)))
     \<and> (ptr < a \<longrightarrow>
          expands_to data ln a0 ptr
        \<and> (\<exists>e' res' dst' mx'.
              dname_expand data ln a0 dst mx = dname_expand_loop data ln ptr ptr e' res' dst' mx'))
     \<and> (\<forall>p p' name. p_err p = None \<and> p_buf p = data \<and> p_len p = ln \<and> p_offset p = a0
              \<and> unpack_dname p cap = Some (p', Some name) \<longrightarrow> ptr < a)"
proof -
  from first_pointer_at [OF fp] obtain b b1 where
    p: "rd data off = Some b" "unat b AND 192 = 192" "off + 2 \<le> ln" "rd data (off + 1) = Some b1"
    and ptr: "ptr = 256 * (unat b AND 63) + unat b1" by blast
  have "unat b1 < 256" using unsigned_less [of b1, where ?'a = nat] by simp
  with and63_le [of b] ptr have bound: "ptr < 2 ^ 14" by simp
  from expands_to_inside [OF chain fp] have inside: "\<not> ln \<le> a0" by simp
  have to_ptr: "\<exists>e1 res1 dst1 mx1.
      dname_expand data ln a0 dst' mx' = dname_expand_loop data ln off a e1 res1 dst1 mx1" for dst' mx'
  proof -
    from expands_to_loop [OF chain, of a0 0 dst' mx'] obtain e2 res2 dst2 mx2 where
      s1: "dname_expand_loop data ln a0 a0 a0 0 dst' mx' = dname_expand_loop data ln a a e2 res2 dst2 mx2"
      by blast
    from first_pointer_loop [OF fp, of a e2 res2 dst2 mx2] obtain e1 res1 dst1 mx1 where
      s2: "dname_expand_loop data ln a a e2 res2 dst2 mx2 = dname_expand_loop data ln off a e1 res1 dst1 mx1"
      by blast
    from s1 s2 inside show ?thesis by (auto simp: dname_expand_def)
  qed
  have reject: "\<exists>d. dname_expand data ln a0 dst' mx' = Some (- 1, None, d)" if "a \<le> ptr" for dst' mx'
  proof -
    from to_ptr [of dst' mx'] obtain e1 res1 dst1 mx1 where
      s: "dname_expand data ln a0 dst' mx' = dname_expand_loop data ln off a e1 res1 dst1 mx1" by blast
    from that ptr have "a \<le> 256 * (unat b AND 63) + unat b1" by simp
    from loop_pointer_reject [OF p this, of e1 res1 dst1 mx1] s show ?thesis by simp
  qed
  have bad: "unpack_dname q cap = Some (q\<lparr>p_err := Some ''bad domain name''\<rparr>, None)"
    if "a \<le> ptr" and "p_err q = None \<and> p_buf q = data \<and> p_len q = ln \<and> p_offset q = a0" for q
  proof -
    from reject [OF that(1), of "Some []" cap] obtain d where
      "dname_expand data ln a0 (Some []) cap = Some (- 1, None, d)" by blast
    with that(2) show ?thesis by (simp add: unpack_dname_def)
  qed
  have follow: "\<exists>e' res' dst' mx'.
              dname_expand data ln a0 dst mx = dname_expand_loop data ln ptr ptr e' res' dst' mx'"
    if "ptr < a"
  proof -
    from to_ptr [of dst mx] obtain e1 res1 dst1 mx1 where
      s: "dname_expand data ln a0 dst mx = dname_expand_loop data ln off a e1 res1 dst1 mx1" by blast
    from that ptr have "256 * (unat b AND 63) + unat b1 < a" by simp
    from loop_pointer_follow [OF p this, of e1 res1 dst1 mx1] s ptr show ?thesis by auto
  qed
  have only: "ptr < a"
    if "p_err q = None \<and> p_buf q = data \<and> p_len q = ln \<and> p_offset q = a0
          \<and> unpack_dname q cap = Some (q', Some name)" for q q' name
  proof (rule ccontr)
    assume "\<not> ptr < a"
    then have "a \<le> ptr" by simp
    from bad [OF this, of q] that show False by simp
  qed
  from bound reject bad follow only expands_to_extend [OF chain fp] show ?thesis by blast
qed

theorem unpack_dname_pointer_witness:
  "unpack_dname \<lparr>p_buf = [1, 97, 192, 0], p_len = 4, p_offset = 0, p_err = None\<rparr> 255
     = Some (\<lparr>p_buf = [1, 97, 192, 0], p_len = 4, p_offset = 0, p_err = Some ''bad domain name''\<rparr>, None)
   \<and> unpack_dname \<lparr>p_buf = [192, 0, 192, 0], p_len = 4, p_offset = 2, p_err = None\<rparr> 255
     = Some (\<lparr>p_buf = [192, 0, 192, 0], p_len = 4, p_offset = 2, p_err = Some ''bad domain name''\<rparr>, None)
   \<and> first_pointer [1, 97, 0, 1, 98, 192, 0] 7 3 = Some (5, 0)
   \<and> expands_to [1, 97, 0, 1, 98, 192, 0] 7 3 0
   \<and> unpack_dname \<lparr>p_buf = [1, 97, 0, 1, 98, 192, 0], p_len = 7, p_offset = 3, p_err = None\<rparr> 255
     = Some (\<lparr>p_buf = [1, 97, 0, 1, 98, 192, 0], p_len = 7, p_offset = 7, p_err = None\<rparr>,
             Some [1, 98, 1, 97, 0])"
proof -
  let ?x = "[1, 97, 192, 0] :: byte list"
  let ?y = "[192, 0, 192, 0] :: byte list"
  let ?z = "[1, 97, 0, 1, 98, 192, 0] :: byte list"
  have x1: "expands_to ?x 4 0 0" by (rule expands_to_refl)
  have x2: "first_pointer ?x 4 0 = Some (2, 0)"
    by (simp add: first_pointer.simps rd_def slice_def)
  have y0: "first_pointer ?y 4 2 = Some (2, 0)"
    by (simp add: first_pointer.simps rd_def slice_def)
  have y1: "expands_to ?y 4 2 0"
    by (rule expands_to_intro [OF y0]) (simp_all add: expands_to_refl)
  have y2: "first_pointer ?y 4 0 = Some (0, 0)"
    by (simp add: first_pointer.simps rd_def slice_def)
  have z1: "expands_to ?z 7 3 3" by (rule expands_to_refl)
  have z2: "first_pointer ?z 7 3 = Some (5, 0)"
    by (simp add: first_pointer.simps rd_def slice_def)
  have z3: "unpack_dname \<lparr>p_buf = ?z, p_len = 7, p_offset = 3, p_err = None\<rparr> 255
     = Some (\<lparr>p_buf = ?z, p_len = 7, p_offset = 7, p_err = None\<rparr>, Some [1, 98, 1, 97, 0])"
    by (simp add: dec_eval)
  from unpack_dname_pointer [OF x1 x2, where cap = 255]
  have a: "unpack_dname \<lparr>p_buf = ?x, p_len = 4, p_offset = 0, p_err = None\<rparr> 255
     = Some (\<lparr>p_buf = ?x, p_len = 4, p_offset = 0, p_err = Some ''bad domain name''\<rparr>, None)"
    by simp
  from unpack_dname_pointer [OF y1 y2, where cap = 255]
  have b: "unpack_dname \<lparr>p_buf = ?y, p_len = 4, p_offset = 2, p_err = None\<rparr> 255
     = Some (\<lparr>p_buf = ?y, p_len = 4, p_offset = 2, p_err = Some ''bad domain name''\<rparr>, None)"
    by simp
  from unpack_dname_pointer [OF z1 z2, where cap = 255]
  have c: "expands_to ?z 7 3 0" by simp
  from a b z2 c z3 show ?thesis by simp
qed

lemma long_eval:
  "\<exists>d. dname_expand (127 # replicate 127 97 @ 127 # replicate 127 97 @ [0]) 257 0 (Some []) MAXDNAME
    = Some (257, Some 257, Some d)"
  by (simp add: dec_eval nth_append take_Cons' )

text \<open>
  Claim C5 as stated fails: a name is also refused when the walk over it fails. The
  two-byte buffer below holds a pointer to itself; \<^verbatim>\<open>dname_expand\<close> returns -1 having
  expanded nothing, and \<^verbatim>\<open>unpack_dname\<close> fails with \<open>bad domain name\<close>.
\<close>

theorem unpack_dname_bad_name_counterexample:
  "unpack_dname (unpack_init [192, 0] 2) MAXDNAME
     = Some (\<lparr>p_buf = [192, 0], p_len = 2, p_offset = 0, p_err = Some ''bad domain name''\<rparr>, None)
   \<and> dname_expand [192, 0] 2 0 (Some []) MAXDNAME = Some (- 1, None, Some [])"
  by (simp add: dec_eval)

text \<open>
  Claim C5, as amended. When the walk over the labels and pointers of a name comes to
  its end, \<^verbatim>\<open>dname_expand\<close> returns the on-wire length \<open>e\<close> of the expanded name (the
  labels with their length bytes, and the final zero byte): the bytes written to a
  destination of capacity \<open>mx\<close> are \<open>min e mx\<close> many. \<^verbatim>\<open>unpack_dname\<close> then fails, with
  \<open>domain name too long\<close>, exactly when \<open>e\<close> exceeds \<^verbatim>\<open>MAXDNAME\<close>, and returns the
  name otherwise.
\<close>

theorem unpack_dname_too_long:
  assumes e0: "p_err p = None"
    and ex: "dname_expand (p_buf p) (p_len p) (p_offset p) (Some []) mx = Some (e, no, dst)"
    and walk: "e \<noteq> - 1"
  shows "(int MAXDNAME < e \<longrightarrow>
            (\<exists>p'. unpack_dname p mx = Some (p', None) \<and> p_err p' = Some ''domain name too long''))
       \<and> (e \<le> int MAXDNAME \<longrightarrow>
            (\<exists>p' name. unpack_dname p mx = Some (p', Some name) \<and> p_err p' = None \<and> dst = Some name))
       \<and> (\<exists>d. dst = Some d \<and> int (length d) = min e (int mx))"
proof -
  from dname_expand_ret [OF ex] walk have pos: "1 \<le> e" by auto
  from dname_expand_len [OF ex walk] obtain d where d: "dst = Some d" "length d = min (nat e) mx"
    by auto
  from d pos have l: "int (length d) = min e (int mx)" by (auto simp: min_def)
  from e0 ex walk pos d l show ?thesis
    by (auto simp: unpack_dname_def Let_def split: option.splits)
qed

theorem unpack_dname_too_long_witness:
  "(\<exists>p'. unpack_dname (unpack_init (127 # replicate 127 97 @ 127 # replicate 127 97 @ [0]) 257) MAXDNAME
            = Some (p', None) \<and> p_err p' = Some ''domain name too long'')
   \<and> (\<exists>p'. unpack_dname (unpack_init [1, 97, 0] 3) MAXDNAME = Some (p', Some [1, 97, 0]) \<and> p_err p' = None)"
proof -
  let ?l = "127 # replicate 127 97 @ 127 # replicate 127 97 @ [0] :: byte list"
  from long_eval obtain d where
    l: "dname_expand ?l 257 0 (Some []) MAXDNAME = Some (257, Some 257, Some d)" by blast
  have s: "dname_expand [1, 97, 0] 3 0 (Some []) MAXDNAME = Some (3, Some 3, Some [1, 97, 0])"
    by (simp add: dec_eval)
  from unpack_dname_too_long [of "unpack_init ?l 257" MAXDNAME 257 "Some 257" "Some d"] l
  have 1: "\<exists>p'. unpack_dname (unpack_init ?l 257) MAXDNAME = Some (p', None)
              \<and> p_err p' = Some ''domain name too long''"
    by (simp add: unpack_init_def MAXDNAME_def)
  from unpack_dname_too_long [of "unpack_init [1, 97, 0] 3" MAXDNAME 3 "Some 3" "Some [1, 97, 0]"] s
  have 2: "\<exists>p'. unpack_dname (unpack_init [1, 97, 0] 3) MAXDNAME = Some (p', Some [1, 97, 0])
              \<and> p_err p' = None"
    by (simp add: unpack_init_def MAXDNAME_def)
  from 1 2 show ?thesis by blast
qed

text \<open>
  Claim C3. The loop of \<^verbatim>\<open>dname_expand\<close> tests \<^verbatim>\<open>offset + n + 1 > len\<close> before it
  steps over a label, so a label may end exactly at the end of the buffer; the loop
  condition then reads \<^verbatim>\<open>data[offset]\<close> with \<^verbatim>\<open>offset == len\<close>, one byte behind the
  buffer. This happens for the two-byte buffer that holds the label \<open>a\<close> and no final
  zero byte, and, through \<^verbatim>\<open>unpack_query\<close>, for a 14-byte response whose question
  name is that label, which \<^verbatim>\<open>dns_dispatch_mx\<close> decodes when the MX query completes
  without an error. When the memory goes on behind the two bytes and holds a zero
  there, the function returns 3 as the length of the name and 3 as the new offset,
  one more than \<^verbatim>\<open>len\<close>: the byte it has used is not in the buffer.
\<close>

theorem dname_expand_reads_past_buffer:
  "dname_expand [1, 97] 2 0 (Some []) MAXDNAME = None
   \<and> unpack_query (unpack_init [0, 0, 129, 128, 0, 1, 0, 0, 0, 0, 0, 0, 1, 97] 14\<lparr>p_offset := 12\<rparr>) = None
   \<and> dname_expand [1, 97, 0] 2 0 (Some []) MAXDNAME = Some (3, Some 3, Some [1, 97, 0])
   \<and> dns_dispatch_mx ev s
       \<lparr>ar_addrinfo = [], ar_gai_errno = 0, ar_h_errno = 0, ar_rcode = 0,
        ar_data = [0, 0, 129, 128, 0, 1, 0, 0, 0, 0, 0, 0, 1, 97], ar_datalen = 14,
        ar_hostbuf = []\<rparr> = None"
  by (simp add: dns_dispatch_mx_def dec_eval)

section \<open>Properties of the recognizer and of the handlers\<close>

lemmas str_eval = cs_def c_head_def strncasecmp_eq_def strcasecmp_eq_def c_tolower_def c_str_def
  SMTPD_MAXDOMAINPARTSIZE_def HOST_NAME_MAX_def AI_NUMERICHOST_def SOCK_STREAM_def AF_INET6_def
  PF_UNSPEC_def gai_nothing_def gai_noname_def submit_ok_def submit_null_def

lemmas disp_eval = dns_dispatch_mx_def dns_dispatch_mx_preference_def mx_preference_reply_def
  dns_lookup_host_def print_dname_def print_dname_loop.simps NO_DATA_def NO_RECOVERY_def NXDOMAIN_def

text \<open>
  Claim C9. \<^verbatim>\<open>domainname_is_addr\<close> returns 0 or 1, and when it returns 0 the caller's
  socket-address buffer and its length are what they were: the function writes them
  only on the path that returns 1.
\<close>

theorem domainname_is_addr_frame:
  "fst (domainname_is_addr gai s sa sl) \<in> {0, 1}
   \<and> (fst (domainname_is_addr gai s sa sl) = 0 \<longrightarrow> snd (domainname_is_addr gai s sa sl) = (sa, sl))"
  by (auto simp: domainname_is_addr_def Let_def split: if_splits list.splits option.splits prod.splits)

theorem domainname_is_addr_frame_witness:
  "domainname_is_addr gai_nothing (cs ''[192.0.2.5'') (Some [1, 2, 3]) (Some 3) = (0, Some [1, 2, 3], Some 3)
   \<and> domainname_is_addr gai_noname (cs ''[example]'') (Some [1, 2, 3]) (Some 3) = (0, Some [1, 2, 3], Some 3)"
proof -
  have a: "fst (domainname_is_addr gai_nothing (cs ''[192.0.2.5'') (Some [1, 2, 3]) (Some 3)) = 0"
    by (simp add: domainname_is_addr_def str_eval Let_def)
  have b: "fst (domainname_is_addr gai_noname (cs ''[example]'') (Some [1, 2, 3]) (Some 3)) = 0"
    by (simp add: domainname_is_addr_def str_eval Let_def)
  from domainname_is_addr_frame [of gai_nothing "cs ''[192.0.2.5''" "Some [1, 2, 3]" "Some 3"] a
  have 1: "domainname_is_addr gai_nothing (cs ''[192.0.2.5'') (Some [1, 2, 3]) (Some 3)
             = (0, Some [1, 2, 3], Some 3)"
    by (metis prod.collapse)
  from domainname_is_addr_frame [of gai_noname "cs ''[example]''" "Some [1, 2, 3]" "Some 3"] b
  have 2: "domainname_is_addr gai_noname (cs ''[example]'') (Some [1, 2, 3]) (Some 3)
             = (0, Some [1, 2, 3], Some 3)"
    by (metis prod.collapse)
  from 1 2 show ?thesis by simp
qed

text \<open>The loop of \<^verbatim>\<open>dns_dispatch_host\<close> emits one address message for each address
  and counts each in \<^verbatim>\<open>mxfound\<close>.\<close>

lemma host_loop_eq:
  "host_loop s lookup ais msgs =
     (s\<lparr>s_mxfound := s_mxfound s + length ais\<rparr>,
      msgs @ map (\<lambda>ai. \<lparr>hdr_type = IMSG_MTA_DNS_HOST,
                          m_fields = [F_id (s_reqid s), F_sockaddr (ai_addr ai), F_int (l_preference lookup)]\<rparr>) ais)"
  by (induction ais arbitrary: s msgs) auto

text \<open>
  Claim C7. When \<^verbatim>\<open>dns_dispatch_host\<close> takes the reference count from 1 to 0, it
  frees the session and ends the messages with \<^verbatim>\<open>IMSG_MTA_DNS_HOST_END\<close>, whose
  status is \<open>DNS_OK\<close> if and only if \<^verbatim>\<open>mxfound\<close>, now the number of address messages
  of the session, is above zero. With any other count it keeps the session and emits
  only address messages. The messages do not depend on the error stored in the
  session or reported by this completion.
\<close>

theorem dns_dispatch_host_terminator:
  "(s_refcount s = 1 \<longrightarrow>
      dns_dispatch_host s lookup ar =
        \<lparr>e_session = None,
         e_msgs = map (\<lambda>ai. \<lparr>hdr_type = IMSG_MTA_DNS_HOST,
                               m_fields = [F_id (s_reqid s), F_sockaddr (ai_addr ai),
                                           F_int (l_preference lookup)]\<rparr>) (ar_addrinfo ar)
                  @ [\<lparr>hdr_type = IMSG_MTA_DNS_HOST_END,
                      m_fields = [F_id (s_reqid s),
                                  F_status (if 0 < s_mxfound s + length (ar_addrinfo ar)
                                            then DNS_OK else DNS_ENOTFOUND)]\<rparr>],
         e_runs = []\<rparr>)
   \<and> (s_refcount s \<noteq> 1 \<longrightarrow>
        e_session (dns_dispatch_host s lookup ar) \<noteq> None
      \<and> e_msgs (dns_dispatch_host s lookup ar)
          = map (\<lambda>ai. \<lparr>hdr_type = IMSG_MTA_DNS_HOST,
                         m_fields = [F_id (s_reqid s), F_sockaddr (ai_addr ai),
                                     F_int (l_preference lookup)]\<rparr>) (ar_addrinfo ar))
   \<and> e_msgs (dns_dispatch_host (s\<lparr>s_error := err\<rparr>) lookup (ar\<lparr>ar_gai_errno := gai_errno\<rparr>))
        = e_msgs (dns_dispatch_host s lookup ar)"
  by (simp add: dns_dispatch_host_def host_loop_eq Let_def)

theorem dns_dispatch_host_terminator_witness:
  "dns_dispatch_host \<lparr>s_reqid = 7, s_type = IMSG_MTA_DNS_MX, s_name = cs ''example.org'', s_mxfound = 0,
                      s_error = 0, s_refcount = 1\<rparr>
     \<lparr>l_preference = 10\<rparr>
     \<lparr>ar_addrinfo = [\<lparr>ai_addrlen = 4, ai_addr = [192, 0, 2, 1]\<rparr>], ar_gai_errno = - 3, ar_h_errno = 0,
      ar_rcode = 0, ar_data = [], ar_datalen = 0, ar_hostbuf = []\<rparr>
   = \<lparr>e_session = None,
      e_msgs = [\<lparr>hdr_type = IMSG_MTA_DNS_HOST, m_fields = [F_id 7, F_sockaddr [192, 0, 2, 1], F_int 10]\<rparr>,
                \<lparr>hdr_type = IMSG_MTA_DNS_HOST_END, m_fields = [F_id 7, F_status DNS_OK]\<rparr>],
      e_runs = []\<rparr>
   \<and> dns_dispatch_host \<lparr>s_reqid = 7, s_type = IMSG_MTA_DNS_MX, s_name = cs ''example.org'', s_mxfound = 0,
                      s_error = - 3, s_refcount = 1\<rparr>
     \<lparr>l_preference = 10\<rparr>
     \<lparr>ar_addrinfo = [], ar_gai_errno = 0, ar_h_errno = 0,
      ar_rcode = 0, ar_data = [], ar_datalen = 0, ar_hostbuf = []\<rparr>
   = \<lparr>e_session = None,
      e_msgs = [\<lparr>hdr_type = IMSG_MTA_DNS_HOST_END, m_fields = [F_id 7, F_status DNS_ENOTFOUND]\<rparr>],
      e_runs = []\<rparr>"
proof -
  let ?s = "\<lparr>s_reqid = 7, s_type = IMSG_MTA_DNS_MX, s_name = cs ''example.org'', s_mxfound = 0,
            s_error = 0, s_refcount = 1\<rparr>"
  let ?s2 = "\<lparr>s_reqid = 7, s_type = IMSG_MTA_DNS_MX, s_name = cs ''example.org'', s_mxfound = 0,
            s_error = - 3, s_refcount = 1\<rparr>"
  let ?ar = "\<lparr>ar_addrinfo = [\<lparr>ai_addrlen = 4, ai_addr = [192, 0, 2, 1]\<rparr>], ar_gai_errno = - 3,
             ar_h_errno = 0, ar_rcode = 0, ar_data = [], ar_datalen = 0, ar_hostbuf = []\<rparr>"
  let ?ar2 = "\<lparr>ar_addrinfo = [], ar_gai_errno = 0,
             ar_h_errno = 0, ar_rcode = 0, ar_data = [], ar_datalen = 0, ar_hostbuf = []\<rparr>"
  have r: "s_refcount ?s = 1" "s_refcount ?s2 = 1" by simp_all
  from dns_dispatch_host_terminator [of ?s "\<lparr>l_preference = 10\<rparr>" ?ar, THEN conjunct1, rule_format, OF r(1)]
       dns_dispatch_host_terminator [of ?s2 "\<lparr>l_preference = 10\<rparr>" ?ar2, THEN conjunct1, rule_format, OF r(2)]
  show ?thesis by simp
qed

text \<open>
  Claim C2 as stated fails: when \<^verbatim>\<open>res_query_async\<close> returns a null pointer for an
  \<^verbatim>\<open>IMSG_MTA_DNS_MX_PREFERENCE\<close> request, the single reply carries \<open>DNS_ENOTFOUND\<close>,
  not \<open>DNS_EINVAL\<close>.
\<close>

theorem dns_imsg_submit_null_counterexample:
  "dns_imsg \<lparr>getaddrinfo = gai_nothing, submit = submit_null, ss_init = replicate 128 0\<rparr>
     \<lparr>hdr_type = IMSG_MTA_DNS_MX_PREFERENCE,
      m_fields = [F_id 7, F_string (cs ''example.org''), F_string (cs ''mx.example.org'')]\<rparr>
   = Some \<lparr>e_session = None,
           e_msgs = [\<lparr>hdr_type = IMSG_MTA_DNS_MX_PREFERENCE, m_fields = [F_id 7, F_status DNS_ENOTFOUND]\<rparr>],
           e_runs = []\<rparr>
   \<and> DNS_ENOTFOUND \<noteq> DNS_EINVAL"
  by (simp add: dns_imsg_def submit_null_def Let_def)

text \<open>
  Claim C2, as amended. When \<^verbatim>\<open>res_query_async\<close> returns a null pointer, an
  \<^verbatim>\<open>IMSG_MTA_DNS_MX\<close> request whose domain is not an address literal is answered at
  once by the single message \<^verbatim>\<open>IMSG_MTA_DNS_HOST_END\<close> with status \<open>DNS_EINVAL\<close>, and
  an \<^verbatim>\<open>IMSG_MTA_DNS_MX_PREFERENCE\<close> request by its single reply with status
  \<open>DNS_ENOTFOUND\<close>; in both cases the session is freed and no callback is registered.
\<close>

theorem dns_imsg_submit_null:
  "(fst (domainname_is_addr (getaddrinfo ev) domain (Some (ss_init ev)) (Some (length (ss_init ev)))) = 0
      \<and> \<not> submit ev (Res_query_async (take HOST_NAME_MAX domain) C_IN T_MX) \<longrightarrow>
    dns_imsg ev \<lparr>hdr_type = IMSG_MTA_DNS_MX, m_fields = [F_id reqid, F_string domain]\<rparr>
      = Some \<lparr>e_session = None,
              e_msgs = [\<lparr>hdr_type = IMSG_MTA_DNS_HOST_END, m_fields = [F_id reqid, F_status DNS_EINVAL]\<rparr>],
              e_runs = []\<rparr>)
   \<and> (\<not> submit ev (Res_query_async domain C_IN T_MX) \<longrightarrow>
    dns_imsg ev \<lparr>hdr_type = IMSG_MTA_DNS_MX_PREFERENCE, m_fields = [F_id reqid, F_string domain, F_string mx]\<rparr>
      = Some \<lparr>e_session = None,
              e_msgs = [\<lparr>hdr_type = IMSG_MTA_DNS_MX_PREFERENCE,
                         m_fields = [F_id reqid, F_status DNS_ENOTFOUND]\<rparr>],
              e_runs = []\<rparr>)"
  by (auto simp: dns_imsg_def Let_def split: prod.splits)

theorem dns_imsg_submit_null_witness:
  "dns_imsg \<lparr>getaddrinfo = gai_nothing, submit = submit_null, ss_init = replicate 128 0\<rparr>
     \<lparr>hdr_type = IMSG_MTA_DNS_MX, m_fields = [F_id 7, F_string (cs ''example.org'')]\<rparr>
   = Some \<lparr>e_session = None,
           e_msgs = [\<lparr>hdr_type = IMSG_MTA_DNS_HOST_END, m_fields = [F_id 7, F_status DNS_EINVAL]\<rparr>],
           e_runs = []\<rparr>
   \<and> dns_imsg \<lparr>getaddrinfo = gai_nothing, submit = submit_null, ss_init = replicate 128 0\<rparr>
     \<lparr>hdr_type = IMSG_MTA_DNS_MX_PREFERENCE,
      m_fields = [F_id 7, F_string (cs ''example.org''), F_string (cs ''mx.example.org'')]\<rparr>
   = Some \<lparr>e_session = None,
           e_msgs = [\<lparr>hdr_type = IMSG_MTA_DNS_MX_PREFERENCE, m_fields = [F_id 7, F_status DNS_ENOTFOUND]\<rparr>],
           e_runs = []\<rparr>"
proof -
  let ?ev = "\<lparr>getaddrinfo = gai_nothing, submit = submit_null, ss_init = replicate 128 0\<rparr>
               :: env"
  have a: "fst (domainname_is_addr (getaddrinfo ?ev) (cs ''example.org'') (Some (ss_init ?ev))
                 (Some (length (ss_init ?ev)))) = 0"
    by (simp add: domainname_is_addr_def str_eval)
  have b: "\<not> submit ?ev q" for q by (simp add: submit_null_def)
  from dns_imsg_submit_null [of ?ev "cs ''example.org''" 7, THEN conjunct1, rule_format, OF conjI, OF a b]
       dns_imsg_submit_null [of ?ev "cs ''example.org''" 7 "cs ''mx.example.org''", THEN conjunct2, rule_format, OF b]
  show ?thesis by simp
qed

text \<open>For a host request the result of \<^verbatim>\<open>getaddrinfo_async\<close> is not tested: a null
  handle goes to \<^verbatim>\<open>event_asr_run\<close>, no message is sent and the session stays.\<close>

lemma dns_imsg_host_submit_null:
  "\<not> submit ev (Getaddrinfo_async (cs ''example.org'')
       \<lparr>hint_flags = 0, hint_family = PF_UNSPEC, hint_socktype = SOCK_STREAM\<rparr>) \<Longrightarrow>
   dns_imsg ev \<lparr>hdr_type = IMSG_MTA_DNS_HOST, m_fields = [F_id reqid, F_string (cs ''example.org'')]\<rparr>
   = Some \<lparr>e_session = Some \<lparr>s_reqid = reqid, s_type = IMSG_MTA_DNS_HOST, s_name = [], s_mxfound = 0,
                              s_error = 0, s_refcount = 1\<rparr>,
           e_msgs = [],
           e_runs = [(None, Dispatch_host \<lparr>l_preference = - 1\<rparr>)]\<rparr>"
  by (simp add: dns_imsg_def dns_lookup_host_def str_eval Let_def)

text \<open>
  Claim C1. \<^verbatim>\<open>dns_dispatch_mx\<close> returns without a message and without freeing the
  session when \<^verbatim>\<open>unpack_header\<close> or \<^verbatim>\<open>unpack_query\<close> fails. An MX request for
  \<open>example.org\<close> leaves a session that waits for one completion; when that
  completion carries no error and an empty response, the handler sends nothing, keeps
  the session and registers no callback, so no terminal message follows. On the same
  completion \<^verbatim>\<open>dns_dispatch_mx_preference\<close> replies \<open>DNS_ENOTFOUND\<close> and frees the
  session.
\<close>

theorem dns_dispatch_mx_no_terminator:
  "dns_imsg \<lparr>getaddrinfo = gai_nothing, submit = submit_ok, ss_init = replicate 128 0\<rparr>
     \<lparr>hdr_type = IMSG_MTA_DNS_MX, m_fields = [F_id 7, F_string (cs ''example.org'')]\<rparr>
   = Some \<lparr>e_session = Some \<lparr>s_reqid = 7, s_type = IMSG_MTA_DNS_MX, s_name = cs ''example.org'',
                              s_mxfound = 0, s_error = 0, s_refcount = 0\<rparr>,
           e_msgs = [],
           e_runs = [(Some (Res_query_async (cs ''example.org'') C_IN T_MX), Dispatch_mx)]\<rparr>
   \<and> dns_dispatch_mx ev s
     \<lparr>ar_addrinfo = [], ar_gai_errno = 0, ar_h_errno = 0, ar_rcode = 0,
      ar_data = [], ar_datalen = 0, ar_hostbuf = []\<rparr>
   = Some \<lparr>e_session = Some s, e_msgs = [], e_runs = []\<rparr>
   \<and> dns_dispatch_mx_preference s
     \<lparr>ar_addrinfo = [], ar_gai_errno = 0, ar_h_errno = 0, ar_rcode = 0,
      ar_data = [], ar_datalen = 0, ar_hostbuf = []\<rparr>
   = Some \<lparr>e_session = None,
           e_msgs = [\<lparr>hdr_type = IMSG_MTA_DNS_MX_PREFERENCE,
                      m_fields = [F_id (s_reqid s), F_status DNS_ENOTFOUND]\<rparr>],
           e_runs = []\<rparr>"
proof -
  have "dns_imsg \<lparr>getaddrinfo = gai_nothing, submit = submit_ok, ss_init = replicate 128 0\<rparr>
     \<lparr>hdr_type = IMSG_MTA_DNS_MX, m_fields = [F_id 7, F_string (cs ''example.org'')]\<rparr>
   = Some \<lparr>e_session = Some \<lparr>s_reqid = 7, s_type = IMSG_MTA_DNS_MX, s_name = cs ''example.org'',
                              s_mxfound = 0, s_error = 0, s_refcount = 0\<rparr>,
           e_msgs = [],
           e_runs = [(Some (Res_query_async (cs ''example.org'') C_IN T_MX), Dispatch_mx)]\<rparr>"
    by (simp add: dns_imsg_def domainname_is_addr_def str_eval Let_def)
  then show ?thesis by (simp add: disp_eval dec_eval)
qed

subsection \<open>The fan-out of an MX response\<close>



lemma dns_lookup_host_effect:
  "dns_lookup_host ev s host preference = (s1, run) \<Longrightarrow>
   s1 = s\<lparr>s_refcount := s_refcount s + 1\<rparr> \<and> snd run = Dispatch_host \<lparr>l_preference = preference\<rparr>"
  by (auto simp: dns_lookup_host_def Let_def)

lemma mx_loop_decode:
  "mx_loop ev n p s runs found = Some (s', runs', found') \<Longrightarrow> decode_answers n p = Some rrs \<Longrightarrow>
   found' = found + length (filter (\<lambda>rr. rr_type rr = T_MX) rrs)
   \<and> (\<exists>new. runs' = runs @ new
         \<and> map snd new = map (\<lambda>rr. Dispatch_host \<lparr>l_preference = uint (rr_mx_preference rr)\<rparr>)
                            (filter (\<lambda>rr. rr_type rr = T_MX) rrs))
   \<and> s' = s\<lparr>s_refcount := s_refcount s + int (length (filter (\<lambda>rr. rr_type rr = T_MX) rrs))\<rparr>"
proof (induction n arbitrary: p s runs found rrs)
  case 0
  then show ?case by simp
next
  case (Suc n)
  note run = Suc.prems(1) and dec = Suc.prems(2)
  from run obtain p1 r where u: "unpack_rr p = Some (p1, r)"
    by (auto split: option.splits)
  show ?case
  proof (cases r)
    case None
    with run dec u show ?thesis by simp
  next
    case (Some rr)
    with dec u obtain rest where rest: "decode_answers n p1 = Some rest" and rrs: "rrs = rr # rest"
      by auto
    show ?thesis
    proof (cases "rr_type rr = T_MX")
      case False
      with run u Some have "mx_loop ev n p1 s runs found = Some (s', runs', found')" by simp
      from Suc.IH [OF this rest] False rrs show ?thesis by simp
    next
      case True
      with run u Some obtain preference exchange buf where
        body: "rr_rr rr = Rr_mx preference exchange" and
        pr: "print_dname exchange 512 = Some buf" and ne: "length (c_str buf) \<noteq> 0"
        by (auto split: rr_body.splits option.splits if_splits)
      obtain s1 r1 where lk: "dns_lookup_host ev s (take (length (c_str buf) - 1) (c_str buf))
                                 (uint preference) = (s1, r1)"
        by (cases "dns_lookup_host ev s (take (length (c_str buf) - 1) (c_str buf)) (uint preference)")
      from run u Some True body pr ne lk
      have rec: "mx_loop ev n p1 s1 (runs @ [r1]) (found + 1) = Some (s', runs', found')"
        by simp
      from dns_lookup_host_effect [OF lk]
      have s1: "s1 = s\<lparr>s_refcount := s_refcount s + 1\<rparr>"
        and r1: "snd r1 = Dispatch_host \<lparr>l_preference = uint preference\<rparr>" by auto
      from body have pref: "rr_mx_preference rr = preference" by (simp add: rr_mx_preference_def)
      from Suc.IH [OF rec rest] obtain new where
        f: "found' = found + 1 + length (filter (\<lambda>rr. rr_type rr = T_MX) rest)" and
        n: "runs' = (runs @ [r1]) @ new"
           "map snd new = map (\<lambda>rr. Dispatch_host \<lparr>l_preference = uint (rr_mx_preference rr)\<rparr>)
                            (filter (\<lambda>rr. rr_type rr = T_MX) rest)" and
        s: "s' = s1\<lparr>s_refcount := s_refcount s1 + int (length (filter (\<lambda>rr. rr_type rr = T_MX) rest))\<rparr>"
        by auto
      have "runs' = runs @ (r1 # new)" using n by simp
      moreover have "map snd (r1 # new) = map (\<lambda>rr. Dispatch_host \<lparr>l_preference = uint (rr_mx_preference rr)\<rparr>)
                            (filter (\<lambda>rr. rr_type rr = T_MX) rrs)"
        using n r1 pref rrs True by simp
      ultimately show ?thesis using f s s1 rrs True by (auto simp: add.assoc)
    qed
  qed
qed

text \<open>
  Take a completion without a resolver error (or with \<^verbatim>\<open>NO_DATA\<close>) whose header and
  question decode, and let the answer section decode to the records \<open>rrs\<close>. If
  \<^verbatim>\<open>dns_dispatch_mx\<close> returns, it has sent no message, and: when \<open>N > 0\<close> of the
  records are of type MX it has registered exactly \<open>N\<close> callbacks, the
  \<^verbatim>\<open>dns_dispatch_host\<close> of one lookup per MX record, in order, each with that
  record's preference, and the reference count has grown by \<open>N\<close>; when none is of
  type MX it has registered exactly the one lookup that
  \<^verbatim>\<open>dns_lookup_host(s, s->name, 0)\<close> makes, with preference 0.
\<close>

lemma dns_dispatch_mx_fanout_if_returns:
  assumes herr: "ar_h_errno ar = 0 \<or> ar_h_errno ar = NO_DATA"
    and hd: "unpack_header (unpack_init (ar_data ar) (ar_datalen ar)) = Some (p1, Some h)"
    and qu: "unpack_query p1 = Some (p2, Some q)"
    and an: "decode_answers (unat (h_ancount h)) p2 = Some rrs"
    and run: "dns_dispatch_mx ev s ar = Some eff"
  shows "e_msgs eff = []
     \<and> (filter (\<lambda>rr. rr_type rr = T_MX) rrs \<noteq> [] \<longrightarrow>
          length (e_runs eff) = length (filter (\<lambda>rr. rr_type rr = T_MX) rrs)
        \<and> map snd (e_runs eff)
            = map (\<lambda>rr. Dispatch_host \<lparr>l_preference = uint (rr_mx_preference rr)\<rparr>)
                  (filter (\<lambda>rr. rr_type rr = T_MX) rrs)
        \<and> e_session eff
            = Some (s\<lparr>s_refcount := s_refcount s + int (length (filter (\<lambda>rr. rr_type rr = T_MX) rrs))\<rparr>))
     \<and> (filter (\<lambda>rr. rr_type rr = T_MX) rrs = [] \<longrightarrow>
          e_runs eff = [snd (dns_lookup_host ev s (s_name s) 0)]
        \<and> snd (snd (dns_lookup_host ev s (s_name s) 0)) = Dispatch_host \<lparr>l_preference = 0\<rparr>
        \<and> e_session eff = Some (s\<lparr>s_refcount := s_refcount s + 1\<rparr>))"
proof -
  let ?mxs = "filter (\<lambda>rr. rr_type rr = T_MX) rrs"
  from herr have h0: "\<not> (ar_h_errno ar \<noteq> 0 \<and> ar_h_errno ar \<noteq> NO_DATA)" by auto
  from run h0 hd qu obtain s1 runs found where
    lp: "mx_loop ev (unat (h_ancount h)) p2 s [] 0 = Some (s1, runs, found)"
    by (auto simp: dns_dispatch_mx_def split: Option.bind_splits)
  from mx_loop_decode [OF lp an] have
    f: "found = length ?mxs" and
    r: "map snd runs = map (\<lambda>rr. Dispatch_host \<lparr>l_preference = uint (rr_mx_preference rr)\<rparr>) ?mxs" and
    s1: "s1 = s\<lparr>s_refcount := s_refcount s + int (length ?mxs)\<rparr>"
    by auto
  from r have lr: "length runs = length ?mxs" by (metis length_map)
  obtain s2 r2 where lk: "dns_lookup_host ev s (s_name s) 0 = (s2, r2)"
    by (cases "dns_lookup_host ev s (s_name s) 0")
  note eff2 = dns_lookup_host_effect [OF lk]
  show ?thesis
  proof (cases "?mxs = []")
    case True
    with f lr s1 have "found = 0" "runs = []" "s1 = s" by auto
    with run h0 hd qu lp lk have "eff = \<lparr>e_session = Some s2, e_msgs = [], e_runs = [r2]\<rparr>"
      by (simp add: dns_dispatch_mx_def)
    with True lk eff2 show ?thesis by simp
  next
    case False
    with f have "found \<noteq> 0" by simp
    with run h0 hd qu lp have "eff = \<lparr>e_session = Some s1, e_msgs = [], e_runs = runs\<rparr>"
      by (simp add: dns_dispatch_mx_def)
    with False r lr s1 show ?thesis by simp
  qed
qed


end
